theory Spec2Isabelle
  imports Main "HOL-Library.Sublist"
begin

unbundle bit_operations_syntax

section \<open>Python strings\<close>

text \<open>
  A Python \<open>str\<close> is a sequence of Unicode code points; a code point is a natural
  number.  ASCII literals of the source are written as HOL string literals and
  embedded with \<open>py\<close>; the Chinese messages of the source are given by their code
  points, with an English gloss.
\<close>

type_synonym pystr = "nat list"

definition py :: "string \<Rightarrow> pystr" where
  "py s = map of_char s"

section \<open>The data model of \<open>patch_manager.py\<close>\<close>

datatype PatchMode = BLOCK | RANDOM | EMPTY | STEALTH | DEBUG

fun mode_value :: "PatchMode \<Rightarrow> pystr" where
  "mode_value BLOCK = py ''block''"
| "mode_value RANDOM = py ''random''"
| "mode_value EMPTY = py ''empty''"
| "mode_value STEALTH = py ''stealth''"
| "mode_value DEBUG = py ''debug''"

record PatchResult =
  success :: bool
  message :: pystr
  file_path :: pystr
  backup_path :: pystr

text \<open>The constructor \<open>PatchResult(success, message, file_path="", backup_path="")\<close>.\<close>

definition mkPatchResult :: "bool \<Rightarrow> pystr \<Rightarrow> pystr \<Rightarrow> pystr \<Rightarrow> PatchResult" where
  "mkPatchResult s m fp bp = \<lparr>success = s, message = m, file_path = fp, backup_path = bp\<rparr>"

definition failed :: "pystr \<Rightarrow> PatchResult" where
  "failed m = mkPatchResult False m [] []"

subsection \<open>The tables of \<open>PatchManager.__init__\<close> and the message texts\<close>

fun patches :: "PatchMode \<Rightarrow> pystr" where
  \<open>patches BLOCK = py
    ''if (typeof s === "string" && (s.startsWith("report-") || s.startsWith("record-"))) { return { success: true }; }''\<close>
| \<open>patches RANDOM = py
    ''if (typeof s === "string" && (s.startsWith("report-") || s.startsWith("record-"))) { i = { timestamp: Date.now(), version: Math.random().toString(36).substring(2, 8) }; }''\<close>
| \<open>patches EMPTY = py
    ''if (typeof s === "string" && (s.startsWith("report-") || s.startsWith("record-"))) { i = {}; }''\<close>
| \<open>patches STEALTH = py
    ''if (typeof s === "string" && (s.startsWith("report-") || s.startsWith("record-"))) { i = { timestamp: Date.now(), session: Math.random().toString(36).substring(2, 10), events: [] }; }''\<close>
| \<open>patches DEBUG = py
    ''if (typeof s === "string" && (s.startsWith("report-") || s.startsWith("record-"))) { i = { timestamp: Date.now(), version: Math.random().toString(36).substring(2, 8) }; } if (typeof s === "string" && s === "subscription-info") { return { success: true, subscription: { Enterprise: {}, ActiveSubscription: { end_date: "2026-12-31", usage_balance_depleted: false } } }; } this.maxUploadSizeBytes = 999999999; this.maxTrackableFileCount = 999999; this.completionTimeoutMs = 999999; this.diffBudget = 999999; this.messageBudget = 999999; this.enableDebugFeatures = true;''\<close>

definition patch_signatures :: "pystr list" where
  \<open>patch_signatures =
     [py ''startsWith("report-")'',
      py ''startsWith("record-")'',
      py ''randSessionId'',
      py ''this._userAgent = ""'']\<close>

fun get_patch_description :: "PatchMode \<Rightarrow> pystr" where
  "get_patch_description BLOCK =  \<comment> \<open>complete telemetry blocking - no data is sent\<close>
     [0x5B8C, 0x5168, 0x9065, 0x6D4B, 0x963B, 0x6B62, 0x20, 0x2D, 0x20, 0x4E0D, 0x53D1, 0x9001,
     0x4EFB, 0x4F55, 0x6570, 0x636E]"
| "get_patch_description RANDOM =  \<comment> \<open>random fake data - the server receives meaningless data\<close>
     [0x968F, 0x673A, 0x5047, 0x6570, 0x636E, 0x20, 0x2D, 0x20, 0x670D, 0x52A1, 0x5668, 0x6536,
     0x5230, 0x65E0, 0x610F, 0x4E49, 0x6570, 0x636E]"
| "get_patch_description EMPTY =  \<comment> \<open>empty data mode - the minimal payload is sent\<close>
     [0x7A7A, 0x6570, 0x636E, 0x6A21, 0x5F0F, 0x20, 0x2D, 0x20, 0x53D1, 0x9001, 0x6700, 0x5C0F,
     0x8F7D, 0x8377]"
| "get_patch_description STEALTH =  \<comment> \<open>stealth mode - realistic but fake telemetry is sent\<close>
     [0x9690, 0x8EAB, 0x6A21, 0x5F0F, 0x20, 0x2D, 0x20, 0x53D1, 0x9001, 0x903C, 0x771F, 0x4F46,
     0x5047, 0x7684, 0x9065, 0x6D4B, 0x6570, 0x636E]"
| "get_patch_description DEBUG =  \<comment> \<open>debug mode - fake subscription + no limits + enhanced features\<close>
     [0x8C03, 0x8BD5, 0x6A21, 0x5F0F, 0x20, 0x2D, 0x20, 0x5047, 0x8BA2, 0x9605, 0x20, 0x2B,
     0x20, 0x65E0, 0x9650, 0x5236, 0x20, 0x2B, 0x20, 0x589E, 0x5F3A, 0x529F, 0x80FD]"

definition generate_session_randomizer :: pystr where
  \<open>generate_session_randomizer = py
    '' const chars = "0123456789abcdef"; let randSessionId = ""; for (let i = 0; i < 36; i++) { randSessionId += i === 8 || i === 13 || i === 18 || i === 23 ? "-" : i === 14 ? "4" : i === 19 ? chars[8 + Math.floor(4 * Math.random())] : chars[Math.floor(16 * Math.random())]; } this.sessionId = randSessionId; this._userAgent = "";''\<close>

definition msg_added_write_permission :: pystr where
  \<comment> \<open>line 144; in English: "write permission added to file: "\<close>
  "msg_added_write_permission =
     [0x5DF2, 0x4E3A, 0x6587, 0x4EF6, 0x6DFB, 0x52A0, 0x5199, 0x6743, 0x9650, 0x3A, 0x20]"

definition msg_chmod_failed :: pystr where
  \<comment> \<open>line 151; in English: "changing the file permissions failed: "\<close>
  "msg_chmod_failed =
     [0x4FEE, 0x6539, 0x6587, 0x4EF6, 0x6743, 0x9650, 0x5931, 0x8D25, 0x3A, 0x20]"

definition msg_backup_exists :: pystr where
  \<comment> \<open>line 170; in English: "backup file already exists: "\<close>
  "msg_backup_exists =
     [0x5907, 0x4EFD, 0x6587, 0x4EF6, 0x5DF2, 0x5B58, 0x5728, 0x3A, 0x20]"

definition msg_backup_created :: pystr where
  \<comment> \<open>line 174; in English: "backup created: "\<close>
  "msg_backup_created =
     [0x5907, 0x4EFD, 0x521B, 0x5EFA, 0x6210, 0x529F, 0x3A, 0x20]"

definition msg_create_backup_failed_e :: pystr where
  \<comment> \<open>line 178; in English: "creating the backup failed: "\<close>
  "msg_create_backup_failed_e =
     [0x521B, 0x5EFA, 0x5907, 0x4EFD, 0x5931, 0x8D25, 0x3A, 0x20]"

definition msg_file_not_exist :: pystr where
  \<comment> \<open>line 195; in English: "file does not exist: "\<close>
  "msg_file_not_exist =
     [0x6587, 0x4EF6, 0x4E0D, 0x5B58, 0x5728, 0x3A, 0x20]"

definition msg_start_patching :: pystr where
  \<comment> \<open>line 197; in English: "start patching file: "\<close>
  "msg_start_patching =
     [0x5F00, 0x59CB, 0x8865, 0x4E01, 0x6587, 0x4EF6, 0x3A, 0x20]"

definition msg_patch_mode :: pystr where
  \<comment> \<open>line 198; in English: "patch mode: "\<close>
  "msg_patch_mode =
     [0x8865, 0x4E01, 0x6A21, 0x5F0F, 0x3A, 0x20]"

definition msg_read_failed :: pystr where
  \<comment> \<open>line 205; in English: "reading the file failed: "\<close>
  "msg_read_failed =
     [0x8BFB, 0x53D6, 0x6587, 0x4EF6, 0x5931, 0x8D25, 0x3A, 0x20]"

definition msg_already_patched :: pystr where
  \<comment> \<open>line 209; in English: "the file is already patched, skipping"\<close>
  "msg_already_patched =
     [0x6587, 0x4EF6, 0x5DF2, 0x88AB, 0x8865, 0x4E01, 0xFF0C, 0x8DF3, 0x8FC7, 0x64CD, 0x4F5C]"

definition msg_callapi_not_found :: pystr where
  \<comment> \<open>line 214; in English: "async callApi function not found"\<close>
  "msg_callapi_not_found =
     [0x672A, 0x627E, 0x5230, 0x61, 0x73, 0x79, 0x6E, 0x63, 0x20, 0x63, 0x61, 0x6C, 0x6C, 0x41,
     0x70, 0x69, 0x51FD, 0x6570]"

definition msg_no_write_permission :: pystr where
  \<comment> \<open>line 218; in English: "cannot obtain write permission on the file"\<close>
  "msg_no_write_permission =
     [0x65E0, 0x6CD5, 0x83B7, 0x53D6, 0x6587, 0x4EF6, 0x5199, 0x6743, 0x9650]"

definition msg_create_backup_failed :: pystr where
  \<comment> \<open>line 223; in English: "creating the backup failed"\<close>
  "msg_create_backup_failed =
     [0x521B, 0x5EFA, 0x5907, 0x4EFD, 0x5931, 0x8D25]"

definition msg_patch_applied_to :: pystr where
  \<comment> \<open>line 237; in English: "patch applied: "\<close>
  "msg_patch_applied_to =
     [0x8865, 0x4E01, 0x5E94, 0x7528, 0x6210, 0x529F, 0x3A, 0x20]"

definition msg_effect :: pystr where
  \<comment> \<open>line 238; in English: "effect: "\<close>
  "msg_effect =
     [0x6548, 0x679C, 0x3A, 0x20]"

definition msg_privacy_enabled :: pystr where
  \<comment> \<open>line 239; in English: "privacy protection enabled!"\<close>
  "msg_privacy_enabled =
     [0x9690, 0x79C1, 0x4FDD, 0x62A4, 0x5DF2, 0x542F, 0x7528, 0x21]"

definition msg_patch_applied :: pystr where
  \<comment> \<open>line 241; in English: "patch applied"\<close>
  "msg_patch_applied =
     [0x8865, 0x4E01, 0x5E94, 0x7528, 0x6210, 0x529F]"

definition msg_restored_original :: pystr where
  \<comment> \<open>line 249; in English: "original file restored from backup"\<close>
  "msg_restored_original =
     [0x5DF2, 0x4ECE, 0x5907, 0x4EFD, 0x6062, 0x590D, 0x539F, 0x59CB, 0x6587, 0x4EF6]"

definition msg_restore_original_failed :: pystr where
  \<comment> \<open>line 251; in English: "restoring the original file failed!"\<close>
  "msg_restore_original_failed =
     [0x6062, 0x590D, 0x539F, 0x59CB, 0x6587, 0x4EF6, 0x5931, 0x8D25, 0x21]"

definition msg_write_failed :: pystr where
  \<comment> \<open>line 253; in English: "writing the patched file failed: "\<close>
  "msg_write_failed =
     [0x5199, 0x5165, 0x8865, 0x4E01, 0x6587, 0x4EF6, 0x5931, 0x8D25, 0x3A, 0x20]"

definition msg_patch_failed :: pystr where
  \<comment> \<open>line 256; in English: "patch operation failed: "\<close>
  "msg_patch_failed =
     [0x8865, 0x4E01, 0x64CD, 0x4F5C, 0x5931, 0x8D25, 0x3A, 0x20]"

definition msg_backup_missing :: pystr where
  \<comment> \<open>line 265; in English: "backup file does not exist: "\<close>
  "msg_backup_missing =
     [0x5907, 0x4EFD, 0x6587, 0x4EF6, 0x4E0D, 0x5B58, 0x5728, 0x3A, 0x20]"

definition msg_restored_from_backup :: pystr where
  \<comment> \<open>line 272; in English: "restored from backup: "\<close>
  "msg_restored_from_backup =
     [0x5DF2, 0x4ECE, 0x5907, 0x4EFD, 0x6062, 0x590D, 0x3A, 0x20]"

definition msg_restore_ok :: pystr where
  \<comment> \<open>line 274; in English: "restore succeeded"\<close>
  "msg_restore_ok =
     [0x6062, 0x590D, 0x6210, 0x529F]"

definition msg_restore_failed :: pystr where
  \<comment> \<open>line 277; in English: "restore failed: "\<close>
  "msg_restore_failed =
     [0x6062, 0x590D, 0x5931, 0x8D25, 0x3A, 0x20]"

text \<open>
  The local English fallback texts, \<open>FALLBACK_TEXTS\<close>, a dictionary with four keys.
\<close>

definition FALLBACK_TEXTS :: "(pystr \<times> pystr) list" where
  "FALLBACK_TEXTS =
     [(py ''patch.status.file_not_found'', py ''file not found''),
      (py ''patch.status.patched'', py ''patched''),
      (py ''patch.status.not_patched'', py ''not patched''),
      (py ''patch.status.status_unknown'', py ''status unknown'')]"

section \<open>The regular expression of \<open>_find_callapi_function\<close>\<close>

text \<open>
  The pattern \<^verbatim>\<open>(async\s+callApi\s*\([^)]*\)\s*\{)\<close> is a sequence of literal
  characters and of greedy repetitions of a character class.  \<open>match_items\<close> is the
  backtracking matcher of such a sequence at the head of a string: a repetition
  first takes as many characters as it can and gives them back one by one while the
  rest of the pattern fails.  It returns the text left after the match.

  \<^verbatim>\<open>\s\<close> in a \<open>str\<close> pattern is Unicode white space: the ASCII characters 9 to 13,
  28 to 31 and 32, and the code points U+0085, U+00A0, U+1680, U+2000 to U+200A,
  U+2028, U+2029, U+202F, U+205F and U+3000.
\<close>

datatype cclass = Space | NotCh nat

datatype item = Ch nat | Star cclass | Plus cclass

definition is_space :: "nat \<Rightarrow> bool" where
  "is_space c =
     (c \<in> set [0x9, 0xA, 0xB, 0xC, 0xD, 0x1C, 0x1D, 0x1E, 0x1F, 0x20, 0x85, 0xA0, 0x1680,
        0x2000, 0x2001, 0x2002, 0x2003, 0x2004, 0x2005, 0x2006, 0x2007, 0x2008, 0x2009,
        0x200A, 0x2028, 0x2029, 0x202F, 0x205F, 0x3000])"

fun in_class :: "cclass \<Rightarrow> nat \<Rightarrow> bool" where
  "in_class Space c = is_space c"
| "in_class (NotCh d) c = (c \<noteq> d)"

fun match_items :: "item list \<Rightarrow> pystr \<Rightarrow> pystr option" where
  "match_items [] s = Some s"
| "match_items (Ch c # its) [] = None"
| "match_items (Ch c # its) (x # xs) = (if x = c then match_items its xs else None)"
| "match_items (Star k # its) [] = match_items its []"
| "match_items (Star k # its) (x # xs) =
     (if in_class k x then
        (case match_items (Star k # its) xs of
           Some r \<Rightarrow> Some r
         | None \<Rightarrow> match_items its (x # xs))
      else match_items its (x # xs))"
| "match_items (Plus k # its) [] = None"
| "match_items (Plus k # its) (x # xs) =
     (if in_class k x then match_items (Star k # its) xs else None)"

text \<open>
  \<open>re.search\<close> tries every start position from left to right, the position after
  the last character included, and returns the first match.  A match is the pair of
  \<open>match.start()\<close> and \<open>match.end()\<close>.
\<close>

fun re_search :: "item list \<Rightarrow> pystr \<Rightarrow> nat \<Rightarrow> (nat \<times> nat) option" where
  "re_search pat [] i =
     (case match_items pat [] of Some r \<Rightarrow> Some (i, i) | None \<Rightarrow> None)"
| "re_search pat (x # xs) i =
     (case match_items pat (x # xs) of
        Some r \<Rightarrow> Some (i, i + (length (x # xs) - length r))
      | None \<Rightarrow> re_search pat xs (Suc i))"

definition callapi_pattern :: "item list" where
  \<open>callapi_pattern =
     map Ch (py ''async'') @ [Plus Space] @ map Ch (py ''callApi'') @ [Star Space] @
     map Ch (py ''('') @ [Star (NotCh (of_char CHR 0x29))] @ map Ch (py '')'') @
     [Star Space] @ map Ch (py ''{'')\<close>

definition find_callapi_function :: "pystr \<Rightarrow> (nat \<times> nat) option" where
  "find_callapi_function content = re_search callapi_pattern content 0"

definition match_end :: "nat \<times> nat \<Rightarrow> nat" where
  "match_end m = snd m"

section \<open>Paths\<close>

text \<open>
  \<open>Path(p)\<close> on a POSIX system: the root is \<open>/\<close> (or \<open>//\<close> for exactly two leading
  slashes), the parts are the components between slashes without the empty ones and
  the dots.  \<open>name\<close> is the last part, \<open>suffix\<close> starts at the last dot of the name
  when that dot is neither its first nor its last character, and \<open>stem\<close> is the rest.
  \<open>with_name\<close> raises \<open>ValueError\<close> on a path with no name.
\<close>

fun split_on :: "nat \<Rightarrow> pystr \<Rightarrow> pystr list" where
  "split_on d [] = [[]]"
| "split_on d (c # cs) =
     (if c = d then [] # split_on d cs
      else (case split_on d cs of [] \<Rightarrow> [[c]] | x # xs \<Rightarrow> (c # x) # xs))"

definition slash :: nat where
  "slash = 0x2F"

definition dot :: nat where
  "dot = 0x2E"

definition path_root :: "pystr \<Rightarrow> pystr" where
  "path_root p =
     (if take 1 p \<noteq> [slash] then []
      else if take 1 (drop 1 p) \<noteq> [slash] \<or> take 1 (drop 2 p) = [slash] then [slash]
      else [slash, slash])"

definition path_parts :: "pystr \<Rightarrow> pystr list" where
  "path_parts p = filter (\<lambda>x. x \<noteq> [] \<and> x \<noteq> [dot]) (split_on slash p)"

fun join_parts :: "pystr list \<Rightarrow> pystr" where
  "join_parts [] = []"
| "join_parts [x] = x"
| "join_parts (x # y # ys) = x @ [slash] @ join_parts (y # ys)"

definition path_str :: "pystr \<Rightarrow> pystr list \<Rightarrow> pystr" where
  "path_str root parts =
     (if root = [] \<and> parts = [] then [dot] else root @ join_parts parts)"

fun rfind :: "nat \<Rightarrow> pystr \<Rightarrow> nat option" where
  "rfind d [] = None"
| "rfind d (c # cs) =
     (case rfind d cs of Some i \<Rightarrow> Some (Suc i) | None \<Rightarrow> (if c = d then Some 0 else None))"

definition path_suffix :: "pystr \<Rightarrow> pystr" where
  "path_suffix name =
     (case rfind dot name of
        Some i \<Rightarrow> (if 0 < i \<and> i < length name - 1 then drop i name else [])
      | None \<Rightarrow> [])"

definition path_stem :: "pystr \<Rightarrow> pystr" where
  "path_stem name =
     (case rfind dot name of
        Some i \<Rightarrow> (if 0 < i \<and> i < length name - 1 then take i name else name)
      | None \<Rightarrow> name)"

definition with_name :: "pystr \<Rightarrow> pystr \<Rightarrow> pystr + pystr" where
  \<open>with_name p new_name =
     (if path_parts p = [] then
        Inl (py ''PosixPath('' @ [0x27] @ path_str (path_root p) (path_parts p) @ [0x27] @
             py '') has an empty name'')
      else Inr (path_str (path_root p) (butlast (path_parts p) @ [new_name])))\<close>

text \<open>
  The backup path of both \<open>_create_backup\<close> and \<open>restore_from_backup\<close>:
  \<^verbatim>\<open>file_path_obj.with_name(f'{file_path_obj.stem}_ori{file_path_obj.suffix}')\<close>.
\<close>

definition backup_path_of :: "pystr \<Rightarrow> pystr + pystr" where
  "backup_path_of p =
     (let name = (if path_parts p = [] then [] else last (path_parts p))
      in with_name p (path_stem name @ py ''_ori'' @ path_suffix name))"

section \<open>The file system and the console\<close>

text \<open>
  A file holds its characters and its permission bits (\<open>stat.S_IMODE\<close> of its
  mode).  The characters are the decoded bytes of the file, line endings as they
  are stored; a file that cannot be decoded as UTF-8 has a read error.  Every path
  string names its own file: links and different spellings of one path are not
  modelled, and \<open>Path(file_path)\<close> names the file \<open>file_path\<close>.

  The \<open>world\<close> is what the operations change: the files and the lines printed by
  \<open>print_info\<close>, \<open>print_success\<close>, \<open>print_error\<close> and \<open>print_warning\<close>.  The \<open>env\<close>
  is what they cannot change: the platform, the language support, and for every
  system call whether it raises, with the text of the exception.  A failing
  \<open>open(path, 'w')\<close> may have truncated the file already, so a write error also
  says what it leaves in the file (\<open>None\<close>: the file is untouched).
\<close>

record fnode =
  text_of :: pystr
  perms :: nat

datatype level = INFO | SUCCESS | ERROR | WARNING

record world =
  files :: "pystr \<Rightarrow> fnode option"
  console :: "(level \<times> pystr) list"

record env =
  windows :: bool
  language_support :: "(pystr \<Rightarrow> pystr) option"
  stat_error :: "pystr \<Rightarrow> pystr option"
  path_chmod_error :: "pystr \<Rightarrow> pystr option"
  os_chmod_error :: "pystr \<Rightarrow> pystr option"
  read_error :: "pystr \<Rightarrow> pystr option"
  write_error :: "pystr \<Rightarrow> (pystr \<times> pystr option) option"
  copy_error :: "pystr \<Rightarrow> pystr \<Rightarrow> pystr option"

definition print_info :: "pystr \<Rightarrow> world \<Rightarrow> world" where
  "print_info msg w = w\<lparr>console := console w @ [(INFO, msg)]\<rparr>"

definition print_success :: "pystr \<Rightarrow> world \<Rightarrow> world" where
  "print_success msg w = w\<lparr>console := console w @ [(SUCCESS, msg)]\<rparr>"

definition print_error :: "pystr \<Rightarrow> world \<Rightarrow> world" where
  "print_error msg w = w\<lparr>console := console w @ [(ERROR, msg)]\<rparr>"

definition print_warning :: "pystr \<Rightarrow> world \<Rightarrow> world" where
  "print_warning msg w = w\<lparr>console := console w @ [(WARNING, msg)]\<rparr>"

definition no_such_file :: "pystr \<Rightarrow> pystr" where
  "no_such_file p = py ''[Errno 2] No such file or directory: '' @ p"

definition same_file :: "pystr \<Rightarrow> pystr" where
  "same_file p = p @ py '' and '' @ p @ py '' are the same file''"

definition path_exists :: "world \<Rightarrow> pystr \<Rightarrow> bool" where
  "path_exists w p = (files w p \<noteq> None)"

definition path_stat :: "env \<Rightarrow> world \<Rightarrow> pystr \<Rightarrow> pystr + nat" where
  "path_stat e w p =
     (case stat_error e p of
        Some err \<Rightarrow> Inl err
      | None \<Rightarrow> (case files w p of None \<Rightarrow> Inl (no_such_file p) | Some f \<Rightarrow> Inr (perms f)))"

definition set_perms :: "world \<Rightarrow> pystr \<Rightarrow> nat \<Rightarrow> pystr + world" where
  "set_perms w p m =
     (case files w p of
        None \<Rightarrow> Inl (no_such_file p)
      | Some f \<Rightarrow> Inr (w\<lparr>files := (files w)(p \<mapsto> f\<lparr>perms := m\<rparr>)\<rparr>))"

definition path_chmod :: "env \<Rightarrow> world \<Rightarrow> pystr \<Rightarrow> nat \<Rightarrow> pystr + world" where
  "path_chmod e w p m =
     (case path_chmod_error e p of Some err \<Rightarrow> Inl err | None \<Rightarrow> set_perms w p m)"

definition os_chmod :: "env \<Rightarrow> world \<Rightarrow> pystr \<Rightarrow> nat \<Rightarrow> pystr + world" where
  "os_chmod e w p m =
     (case os_chmod_error e p of Some err \<Rightarrow> Inl err | None \<Rightarrow> set_perms w p m)"

text \<open>
  Both \<open>open\<close> calls of the source are in text mode with the default \<open>newline\<close>.
  Reading translates \<^verbatim>\<open>\r\n\<close> and a lone \<^verbatim>\<open>\r\<close> to \<^verbatim>\<open>\n\<close>; writing writes every
  \<^verbatim>\<open>\n\<close> as \<open>os.linesep\<close>, which is \<^verbatim>\<open>\r\n\<close> on Windows and \<^verbatim>\<open>\n\<close> elsewhere.
\<close>

definition cr :: nat where
  "cr = 0xD"

definition lf :: nat where
  "lf = 0xA"

fun universal_newlines :: "pystr \<Rightarrow> pystr" where
  "universal_newlines [] = []"
| "universal_newlines [c] = (if c = cr then [lf] else [c])"
| "universal_newlines (c # d # cs) =
     (if c = cr \<and> d = lf then lf # universal_newlines cs
      else if c = cr then lf # universal_newlines (d # cs)
      else c # universal_newlines (d # cs))"

definition linesep :: "env \<Rightarrow> pystr" where
  "linesep e = (if windows e then [cr, lf] else [lf])"

definition write_newlines :: "env \<Rightarrow> pystr \<Rightarrow> pystr" where
  "write_newlines e t = concat (map (\<lambda>c. if c = lf then linesep e else [c]) t)"

definition read_text :: "env \<Rightarrow> world \<Rightarrow> pystr \<Rightarrow> pystr + pystr" where
  "read_text e w p =
     (case read_error e p of
        Some err \<Rightarrow> Inl err
      | None \<Rightarrow>
          (case files w p of
             None \<Rightarrow> Inl (no_such_file p)
           | Some f \<Rightarrow> Inr (universal_newlines (text_of f))))"

text \<open>
  \<open>open(path, 'w')\<close> followed by \<open>write\<close>: the file keeps its permission bits; a new
  file would get \<open>0o644\<close>.  \<open>put_text\<close> stores characters as they are; \<open>write_text\<close>
  stores the text with its line endings translated.
\<close>

definition put_text :: "world \<Rightarrow> pystr \<Rightarrow> pystr \<Rightarrow> world" where
  "put_text w p t =
     w\<lparr>files := (files w)(p \<mapsto>
        (case files w p of
           None \<Rightarrow> \<lparr>text_of = t, perms = 0x1A4\<rparr>
         | Some f \<Rightarrow> f\<lparr>text_of := t\<rparr>))\<rparr>"

definition write_text :: "env \<Rightarrow> world \<Rightarrow> pystr \<Rightarrow> pystr \<Rightarrow> (pystr + unit) \<times> world" where
  "write_text e w p t =
     (case write_error e p of
        Some (err, None) \<Rightarrow> (Inl err, w)
      | Some (err, Some left) \<Rightarrow> (Inl err, put_text w p left)
      | None \<Rightarrow> (Inr (), put_text w p (write_newlines e t)))"

text \<open>
  \<open>shutil.copy2(src, dst)\<close> copies the text and the permission bits; it raises when
  the source is missing or when both paths name the same file.  A failing copy
  leaves the destination as it was.
\<close>

definition copy2 :: "env \<Rightarrow> world \<Rightarrow> pystr \<Rightarrow> pystr \<Rightarrow> pystr + world" where
  "copy2 e w src dst =
     (case copy_error e src dst of
        Some err \<Rightarrow> Inl err
      | None \<Rightarrow>
          (case files w src of
             None \<Rightarrow> Inl (no_such_file src)
           | Some f \<Rightarrow>
               if src = dst then Inl (same_file src)
               else Inr (w\<lparr>files := (files w)(dst \<mapsto> f)\<rparr>)))"

section \<open>The operations of \<open>PatchManager\<close>\<close>

subsection \<open>\<open>_ensure_write_permissions\<close>\<close>

definition S_IWRITE :: nat where
  "S_IWRITE = 0x80"

definition S_IWUSR :: nat where
  "S_IWUSR = 0x80"

text \<open>
  \<open>getattr(stat, 'S_IWRITE', None)\<close> on Windows, \<open>getattr(stat, 'S_IWUSR', None)\<close>
  elsewhere; both constants exist in \<open>stat\<close>.
\<close>

definition write_flag :: "env \<Rightarrow> nat option" where
  "write_flag e = (if windows e then Some S_IWRITE else Some S_IWUSR)"

definition ensure_write_permissions :: "env \<Rightarrow> world \<Rightarrow> pystr \<Rightarrow> bool \<times> world" where
  "ensure_write_permissions e w p =
     (if path_exists w p then
        (case path_stat e w p of
           Inl err \<Rightarrow> (False, print_warning (msg_chmod_failed @ err) w)
         | Inr current_perms \<Rightarrow>
             (case write_flag e of
                None \<Rightarrow> (True, w)
              | Some flag \<Rightarrow>
                  if current_perms AND flag = 0 then
                    (let new_perms = current_perms OR flag in
                     case path_chmod e w p new_perms of
                       Inr w1 \<Rightarrow> (True, print_info (msg_added_write_permission @ p) w1)
                     | Inl _ \<Rightarrow>
                         (case os_chmod e w p new_perms of
                            Inr w1 \<Rightarrow> (True, print_info (msg_added_write_permission @ p) w1)
                          | Inl err \<Rightarrow> (False, print_warning (msg_chmod_failed @ err) w)))
                  else (True, w)))
      else (True, w))"

subsection \<open>\<open>_create_backup\<close>\<close>

definition create_backup :: "env \<Rightarrow> world \<Rightarrow> pystr \<Rightarrow> (bool \<times> pystr) \<times> world" where
  "create_backup e w p =
     (case backup_path_of p of
        Inl err \<Rightarrow> ((False, []), print_error (msg_create_backup_failed_e @ err) w)
      | Inr bp \<Rightarrow>
          if path_exists w bp then ((True, bp), print_warning (msg_backup_exists @ bp) w)
          else
            (case copy2 e w p bp of
               Inl err \<Rightarrow> ((False, []), print_error (msg_create_backup_failed_e @ err) w)
             | Inr w1 \<Rightarrow> ((True, bp), print_success (msg_backup_created @ bp) w1)))"

subsection \<open>\<open>_is_already_patched\<close>\<close>

definition is_already_patched :: "pystr \<Rightarrow> bool" where
  "is_already_patched content = list_ex (\<lambda>sig. sublist sig content) patch_signatures"

subsection \<open>\<open>apply_patch\<close>\<close>

text \<open>
  The rollback of the \<open>except\<close> branch of the final write: the result of
  \<open>_ensure_write_permissions\<close> is ignored, and a failing copy is caught.
\<close>

definition rollback :: "env \<Rightarrow> world \<Rightarrow> pystr \<Rightarrow> pystr \<Rightarrow> world" where
  "rollback e w p bp =
     (case ensure_write_permissions e w p of
        (_, w1) \<Rightarrow>
          (case copy2 e w1 bp p of
             Inr w2 \<Rightarrow> print_warning msg_restored_original w2
           | Inl _ \<Rightarrow> print_error msg_restore_original_failed w1))"

definition patch_code :: "PatchMode \<Rightarrow> pystr" where
  "patch_code patch_mode = patches patch_mode @ generate_session_randomizer"

text \<open>
  The body of the outer \<open>try\<close> and the operation with its \<open>except\<close> clause.  Every
  system call of the body that can raise has a handler of its own, so the body
  leaves by \<open>return\<close> on every path.
\<close>

definition apply_body ::
  "env \<Rightarrow> world \<Rightarrow> pystr \<Rightarrow> PatchMode \<Rightarrow> (pystr + PatchResult) \<times> world" where
  "apply_body e w p patch_mode =
     (if \<not> path_exists w p then (Inr (failed (msg_file_not_exist @ p)), w)
      else
        (let w1 = print_info (msg_start_patching @ p) w;
             w2 = print_info (msg_patch_mode @ mode_value patch_mode @ py '' - '' @
                              get_patch_description patch_mode) w1
         in case read_text e w2 p of
              Inl err \<Rightarrow> (Inr (failed (msg_read_failed @ err)), w2)
            | Inr content \<Rightarrow>
                if is_already_patched content then (Inr (failed msg_already_patched), w2)
                else
                  (case find_callapi_function content of
                     None \<Rightarrow> (Inr (failed msg_callapi_not_found), w2)
                   | Some m \<Rightarrow>
                       (case ensure_write_permissions e w2 p of
                          (False, w3) \<Rightarrow> (Inr (failed msg_no_write_permission), w3)
                        | (True, w3) \<Rightarrow>
                            (case create_backup e w3 p of
                               ((False, _), w4) \<Rightarrow> (Inr (failed msg_create_backup_failed), w4)
                             | ((True, bp), w4) \<Rightarrow>
                                 (let func_start = match_end m;
                                      patched_content =
                                        take func_start content @ patch_code patch_mode @
                                        drop func_start content
                                  in case write_text e w4 p patched_content of
                                       (Inr _, w5) \<Rightarrow>
                                         (Inr (mkPatchResult True msg_patch_applied p bp),
                                          print_info msg_privacy_enabled
                                            (print_info (msg_effect @
                                                         get_patch_description patch_mode)
                                               (print_success (msg_patch_applied_to @ p) w5)))
                                     | (Inl err, w5) \<Rightarrow>
                                         (Inr (failed (msg_write_failed @ err)),
                                          rollback e w5 p bp)))))))"

definition apply_patch :: "env \<Rightarrow> world \<Rightarrow> pystr \<Rightarrow> PatchMode \<Rightarrow> PatchResult \<times> world" where
  "apply_patch e w p patch_mode =
     (case apply_body e w p patch_mode of
        (Inr r, w1) \<Rightarrow> (r, w1)
      | (Inl err, w1) \<Rightarrow> (failed (msg_patch_failed @ err), w1))"

subsection \<open>\<open>restore_from_backup\<close>\<close>

text \<open>
  The body of the \<open>try\<close>, with the exceptions that leave it as \<open>Inl\<close>, and the
  operation with its \<open>except\<close> clause.
\<close>

definition restore_body :: "env \<Rightarrow> world \<Rightarrow> pystr \<Rightarrow> (pystr + PatchResult) \<times> world" where
  "restore_body e w p =
     (case backup_path_of p of
        Inl err \<Rightarrow> (Inl err, w)
      | Inr bp \<Rightarrow>
          if \<not> path_exists w bp then (Inr (failed (msg_backup_missing @ bp)), w)
          else
            (case ensure_write_permissions e w p of
               (False, w1) \<Rightarrow> (Inr (failed msg_no_write_permission), w1)
             | (True, w1) \<Rightarrow>
                 (case copy2 e w1 bp p of
                    Inl err \<Rightarrow> (Inl err, w1)
                  | Inr w2 \<Rightarrow>
                      (Inr (mkPatchResult True msg_restore_ok p bp),
                       print_success (msg_restored_from_backup @ p) w2))))"

definition restore_from_backup :: "env \<Rightarrow> world \<Rightarrow> pystr \<Rightarrow> PatchResult \<times> world" where
  "restore_from_backup e w p =
     (case restore_body e w p of
        (Inr r, w1) \<Rightarrow> (r, w1)
      | (Inl err, w1) \<Rightarrow> (failed (msg_restore_failed @ err), w1))"

subsection \<open>\<open>get_patch_status\<close>\<close>

text \<open>
  \<open>get_text(key) if LANGUAGE_SUPPORT else FALLBACK_TEXTS.get(key, default)\<close>; the
  table of \<open>language_manager\<close> is the parameter \<open>language_support\<close> of the
  environment.
\<close>

definition status_text :: "env \<Rightarrow> pystr \<Rightarrow> pystr \<Rightarrow> pystr" where
  "status_text e key dflt =
     (case language_support e of
        Some get_text \<Rightarrow> get_text key
      | None \<Rightarrow> (case map_of FALLBACK_TEXTS key of Some t \<Rightarrow> t | None \<Rightarrow> dflt))"

definition status_file_not_found :: "env \<Rightarrow> pystr" where
  "status_file_not_found e =
     status_text e (py ''patch.status.file_not_found'') (py ''file not found'')"

definition status_patched :: "env \<Rightarrow> pystr" where
  "status_patched e = status_text e (py ''patch.status.patched'') (py ''patched'')"

definition status_not_patched :: "env \<Rightarrow> pystr" where
  "status_not_patched e =
     status_text e (py ''patch.status.not_patched'') (py ''not patched'')"

definition status_unknown :: "env \<Rightarrow> pystr" where
  "status_unknown e =
     status_text e (py ''patch.status.status_unknown'') (py ''status unknown'')"

definition status_body :: "env \<Rightarrow> world \<Rightarrow> pystr \<Rightarrow> pystr + pystr" where
  "status_body e w p =
     (if \<not> path_exists w p then Inr (status_file_not_found e)
      else
        (case read_text e w p of
           Inl err \<Rightarrow> Inl err
         | Inr content \<Rightarrow>
             if is_already_patched content then Inr (status_patched e)
             else Inr (status_not_patched e)))"

definition get_patch_status :: "env \<Rightarrow> world \<Rightarrow> pystr \<Rightarrow> pystr" where
  "get_patch_status e w p =
     (case status_body e w p of Inr s \<Rightarrow> s | Inl _ \<Rightarrow> status_unknown e)"

section \<open>Notions used in the statements\<close>

text \<open>
  The texts that the pattern of \<open>_find_callapi_function\<close> denotes: \<open>async\<close>, white
  space, \<open>callApi\<close>, optional white space, a parenthesis, any characters but a closing
  parenthesis, the closing parenthesis, optional white space and a brace.
\<close>

definition anchor_text :: "pystr \<Rightarrow> bool" where
  \<open>anchor_text m \<longleftrightarrow>
     (\<exists>w1 w2 args w3.
        m = py ''async'' @ w1 @ py ''callApi'' @ w2 @ py ''('' @ args @ py '')'' @ w3 @ py ''{'' \<and>
        w1 \<noteq> [] \<and> list_all is_space w1 \<and> list_all is_space w2 \<and>
        list_all (\<lambda>c. c \<noteq> 0x29) args \<and> list_all is_space w3)\<close>

text \<open>
  What \<open>_ensure_write_permissions\<close> makes of a file, and when it succeeds on an
  existing file: \<open>stat\<close> does not raise, and the owner write bit is set already or
  one of the two \<open>chmod\<close> calls sets it.
\<close>

definition chmod_w :: "fnode \<Rightarrow> fnode" where
  "chmod_w f = (if perms f AND S_IWUSR = 0 then f\<lparr>perms := perms f OR S_IWUSR\<rparr> else f)"

definition can_write :: "env \<Rightarrow> pystr \<Rightarrow> fnode \<Rightarrow> bool" where
  "can_write e p f =
     (stat_error e p = None \<and>
      (perms f AND S_IWUSR \<noteq> 0 \<or> path_chmod_error e p = None \<or> os_chmod_error e p = None))"

text \<open>
  \<open>_create_backup\<close> can succeed: the backup path exists, and the backup is there
  already or the copy does not raise.  \<open>with_backup\<close> is the file system after it.
\<close>

definition backup_possible :: "env \<Rightarrow> world \<Rightarrow> pystr \<Rightarrow> bool" where
  "backup_possible e w p =
     (case backup_path_of p of
        Inl _ \<Rightarrow> False
      | Inr bp \<Rightarrow> files w bp \<noteq> None \<or> copy_error e p bp = None)"

definition with_backup :: "(pystr \<Rightarrow> fnode option) \<Rightarrow> pystr \<Rightarrow> fnode \<Rightarrow> pystr \<Rightarrow> fnode option" where
  "with_backup fs bp f = (if fs bp = None then fs(bp \<mapsto> f) else fs)"

text \<open>
  \<open>patchable\<close> collects what \<open>apply_patch\<close> needs to reach its final write: the
  file exists and is read, the text read holds no signature and the anchor is
  found in it at \<open>m\<close>, write
  permission is ensured and the backup \<open>bp\<close> exists or is created.  \<open>prepared\<close> is
  the world at that point, \<open>patched_content\<close> the text that is written, and
  \<open>after_failed_write\<close> the world that a failing write leaves.
\<close>

definition patchable :: "env \<Rightarrow> world \<Rightarrow> pystr \<Rightarrow> fnode \<Rightarrow> nat \<times> nat \<Rightarrow> pystr \<Rightarrow> bool" where
  "patchable e w p f m bp =
     (files w p = Some f \<and> read_error e p = None \<and>
      \<not> is_already_patched (universal_newlines (text_of f)) \<and>
      find_callapi_function (universal_newlines (text_of f)) = Some m \<and> can_write e p f \<and>
      backup_path_of p = Inr bp \<and> (files w bp \<noteq> None \<or> copy_error e p bp = None))"

definition prepared :: "env \<Rightarrow> world \<Rightarrow> pystr \<Rightarrow> PatchMode \<Rightarrow> world" where
  "prepared e w p patch_mode =
     snd (create_backup e
       (snd (ensure_write_permissions e
          (print_info (msg_patch_mode @ mode_value patch_mode @ py '' - '' @
                              get_patch_description patch_mode)
             (print_info (msg_start_patching @ p) w)) p)) p)"

definition patched_content :: "pystr \<Rightarrow> nat \<times> nat \<Rightarrow> PatchMode \<Rightarrow> pystr" where
  "patched_content content m patch_mode =
     take (match_end m) content @ patch_code patch_mode @ drop (match_end m) content"

definition after_failed_write :: "world \<Rightarrow> pystr \<Rightarrow> pystr option \<Rightarrow> world" where
  "after_failed_write w p left = (case left of None \<Rightarrow> w | Some t \<Rightarrow> put_text w p t)"

text \<open>
  A sequence of operations on one target path.  \<open>get_patch_status\<close> returns a
  string and changes nothing.
\<close>

datatype operation = ApplyPatch PatchMode | RestoreFromBackup | GetPatchStatus

fun perform :: "env \<Rightarrow> pystr \<Rightarrow> world \<Rightarrow> operation \<Rightarrow> world" where
  "perform e p w (ApplyPatch mode) = snd (apply_patch e w p mode)"
| "perform e p w RestoreFromBackup = snd (restore_from_backup e w p)"
| "perform e p w GetPatchStatus = w"

section \<open>Example worlds\<close>

text \<open>
  An environment in which no system call fails, one in which opening a file for
  writing is denied, and one in which files cannot be decoded; a file with the
  anchor, one without it, one with two anchors, and one whose lines end in
  \<^verbatim>\<open>\r\n\<close>; a world in which a backup of an older version of the file is already
  there.
\<close>

definition no_faults :: env where
  "no_faults =
     \<lparr>windows = False, language_support = None, stat_error = (\<lambda>_. None),
      path_chmod_error = (\<lambda>_. None), os_chmod_error = (\<lambda>_. None),
      read_error = (\<lambda>_. None), write_error = (\<lambda>_. None),
      copy_error = (\<lambda>_ _. None)\<rparr>"

definition permission_denied :: pystr where
  "permission_denied = py ''[Errno 13] Permission denied''"

definition write_denied :: env where
  "write_denied = no_faults\<lparr>write_error := (\<lambda>_. Some (permission_denied, None))\<rparr>"

definition unreadable :: env where
  "unreadable = no_faults\<lparr>read_error := (\<lambda>_. Some (py ''invalid start byte''))\<rparr>"

definition demo_path :: pystr where
  "demo_path = py ''extension.js''"

definition demo_backup :: pystr where
  "demo_backup = py ''extension_ori.js''"

definition demo_text :: pystr where
  "demo_text = py ''async callApi(s, i) { return 1; }''"

definition demo_file :: fnode where
  "demo_file = \<lparr>text_of = demo_text, perms = 0x1A4\<rparr>"

definition demo_world :: world where
  "demo_world = \<lparr>files = [demo_path \<mapsto> demo_file], console = []\<rparr>"

definition old_file :: fnode where
  "old_file = \<lparr>text_of = py ''old'', perms = 0x1A4\<rparr>"

definition stale_world :: world where
  "stale_world = \<lparr>files = [demo_path \<mapsto> demo_file, demo_backup \<mapsto> old_file], console = []\<rparr>"

definition plain_text :: pystr where
  "plain_text = py ''function callApi(s, i) { return 1; }''"

definition plain_file :: fnode where
  "plain_file = \<lparr>text_of = plain_text, perms = 0x1A4\<rparr>"

definition plain_world :: world where
  "plain_world = \<lparr>files = [demo_path \<mapsto> plain_file], console = []\<rparr>"

definition two_text :: pystr where
  "two_text = py ''async callApi(a){x} async callApi(b){y}''"






section \<open>The matcher\<close>

lemma match_items_suffix: "match_items pat s = Some r \<Longrightarrow> \<exists>m. s = m @ r"
proof (induction pat s arbitrary: r rule: match_items.induct)
  case (1 s)
  then show ?case by simp
next
  case (3 c its x xs)
  then show ?case by (fastforce split: if_splits)
next
  case (5 k its x xs)
  then show ?case
    by (fastforce split: if_splits option.splits)
next
  case (7 k its x xs)
  then show ?case by (fastforce split: if_splits)
qed simp_all

lemma match_items_length: "match_items pat s = Some r \<Longrightarrow> length r \<le> length s"
  using match_items_suffix by fastforce

lemma match_items_drop:
  "match_items pat s = Some r \<Longrightarrow> r = drop (length s - length r) s"
  using match_items_suffix by fastforce

lemma re_search_sound:
  "re_search pat s i = Some (a, b) \<Longrightarrow>
     i \<le> a \<and> a \<le> b \<and> b \<le> i + length s \<and>
     match_items pat (drop (a - i) s) = Some (drop (b - i) s) \<and>
     (\<forall>j < a - i. match_items pat (drop j s) = None)"
proof (induction s arbitrary: i)
  case Nil
  then show ?case by (auto split: option.splits dest: match_items_length)
next
  case (Cons x xs)
  show ?case
  proof (cases "match_items pat (x # xs)")
    case None
    with Cons.prems have rec: "re_search pat xs (Suc i) = Some (a, b)" by simp
    from Cons.IH [OF rec] have ih:
      "Suc i \<le> a" "a \<le> b" "b \<le> Suc i + length xs"
      "match_items pat (drop (a - Suc i) xs) = Some (drop (b - Suc i) xs)"
      "\<forall>j < a - Suc i. match_items pat (drop j xs) = None" by auto
    have d1: "drop (a - i) (x # xs) = drop (a - Suc i) xs" using ih(1) by (simp add: drop_Cons')
    have d2: "drop (b - i) (x # xs) = drop (b - Suc i) xs" using ih(1,2) by (simp add: drop_Cons')
    have "match_items pat (drop j (x # xs)) = None" if "j < a - i" for j
    proof (cases j)
      case 0
      then show ?thesis using None by simp
    next
      case (Suc j')
      then show ?thesis using that ih(5) by simp
    qed
    then show ?thesis using ih d1 d2 by auto
  next
    case (Some r)
    with Cons.prems have ab: "a = i" "b = i + (length (x # xs) - length r)" by auto
    from match_items_drop [OF Some] match_items_length [OF Some] Some
    show ?thesis using ab by auto
  qed
qed

lemma re_search_None:
  "re_search pat s i = None \<Longrightarrow> j \<le> length s \<Longrightarrow> match_items pat (drop j s) = None"
proof (induction s arbitrary: i j)
  case Nil
  then show ?case by (auto split: option.splits)
next
  case (Cons x xs)
  then show ?case by (cases j) (auto split: option.splits)
qed

lemma find_callapi_function_sound:
  assumes "find_callapi_function c = Some (a, b)"
  shows "a \<le> b" "b \<le> length c"
    "match_items callapi_pattern (drop a c) = Some (drop b c)"
    "\<forall>j < a. match_items callapi_pattern (drop j c) = None"
  using re_search_sound [of callapi_pattern c 0 a b] assms
  by (simp_all add: find_callapi_function_def)

text \<open>
  The matcher against the texts that the pattern denotes: a match at the head of a
  string is a text of that shape, every such text at the head is matched, and
  \<open>find_callapi_function\<close> finds the leftmost one.
\<close>

lemma match_lit:
  "match_items (map Ch lit @ its) s =
     (if prefix lit s then match_items its (drop (length lit) s) else None)"
proof (induction lit arbitrary: s)
  case Nil
  then show ?case by simp
next
  case (Cons c lit)
  then show ?case by (cases s) auto
qed

lemma match_star:
  assumes "\<not> in_class k c"
  shows "match_items (Star k # Ch c # its) s = match_items (Ch c # its) (dropWhile (in_class k) s)"
proof (induction s)
  case Nil
  then show ?case by simp
next
  case (Cons x xs)
  show ?case
  proof (cases "in_class k x")
    case True
    then have "x \<noteq> c" using assms by auto
    then show ?thesis using True Cons by (simp split: option.splits)
  next
    case False
    then show ?thesis by simp
  qed
qed

lemma match_plus:
  assumes "\<not> in_class k c"
  shows "match_items (Plus k # Ch c # its) s =
     (case s of [] \<Rightarrow> None
      | x # xs \<Rightarrow> if in_class k x then match_items (Ch c # its) (dropWhile (in_class k) xs) else None)"
  using match_star [OF assms] by (cases s) auto

lemma dropWhile_run:
  "list_all P ws \<Longrightarrow> \<not> P y \<Longrightarrow> dropWhile P (ws @ y # ys) = y # ys"
  by (induction ws) auto

lemma run_split: "\<exists>ws. s = ws @ dropWhile P s \<and> list_all P ws"
  by (rule exI [of _ "takeWhile P s"]) (auto simp: list_all_iff dest: set_takeWhileD)

lemma inv_lit:
  assumes "match_items (map Ch lit @ its) s = Some r"
  shows "\<exists>t. s = lit @ t \<and> match_items its t = Some r"
  using assms by (auto simp: match_lit prefix_def split: if_splits)

lemma inv_ch:
  assumes "match_items (Ch c # its) s = Some r"
  shows "\<exists>t. s = c # t \<and> match_items its t = Some r"
  using assms by (cases s) (auto split: if_splits)

lemma inv_star:
  assumes "\<not> in_class k c" "match_items (Star k # Ch c # its) s = Some r"
  shows "\<exists>ws t. s = ws @ c # t \<and> list_all (in_class k) ws \<and> match_items its t = Some r"
proof -
  from assms have "match_items (Ch c # its) (dropWhile (in_class k) s) = Some r"
    by (simp add: match_star)
  from inv_ch [OF this] obtain t where t: "dropWhile (in_class k) s = c # t"
    and r: "match_items its t = Some r" by blast
  from run_split [of s "in_class k"] obtain ws where "s = ws @ dropWhile (in_class k) s"
    "list_all (in_class k) ws" by blast
  with t r show ?thesis by metis
qed

lemma inv_plus:
  assumes "\<not> in_class k c" "match_items (Plus k # Ch c # its) s = Some r"
  shows "\<exists>ws t. s = ws @ c # t \<and> ws \<noteq> [] \<and> list_all (in_class k) ws \<and>
           match_items its t = Some r"
proof (cases s)
  case Nil
  then show ?thesis using assms by simp
next
  case (Cons x xs)
  with assms have x: "in_class k x" and "match_items (Star k # Ch c # its) xs = Some r"
    by (auto split: if_splits)
  from inv_star [OF assms(1) this(2)] obtain ws t where
    "xs = ws @ c # t" "list_all (in_class k) ws" "match_items its t = Some r" by blast
  then have "s = (x # ws) @ c # t \<and> x # ws \<noteq> [] \<and> list_all (in_class k) (x # ws) \<and>
      match_items its t = Some r" using Cons x by simp
  then show ?thesis by blast
qed

lemma run_lit: "match_items (map Ch lit @ its) (lit @ t) = match_items its t"
  by (simp add: match_lit)

lemma run_star:
  assumes "\<not> in_class k c" "list_all (in_class k) ws"
  shows "match_items (Star k # Ch c # its) (ws @ c # t) = match_items its t"
  using assms by (simp add: match_star dropWhile_run)

lemma run_plus:
  assumes "\<not> in_class k c" "list_all (in_class k) ws" "ws \<noteq> []"
  shows "match_items (Plus k # Ch c # its) (ws @ c # t) = match_items its t"
proof (cases ws)
  case Nil
  then show ?thesis using assms by simp
next
  case (Cons x xs)
  then show ?thesis using assms run_star [of k c xs its t] by simp
qed

lemma callapi_pattern_form:
  \<open>callapi_pattern =
     map Ch (py ''async'') @ Plus Space # Ch 0x63 #
       (map Ch (py ''allApi'') @ Star Space # Ch 0x28 # Star (NotCh 0x29) # Ch 0x29 #
          Star Space # Ch 0x7B # [])\<close>
  by (simp add: callapi_pattern_def py_def)

lemma not_space:
  "\<not> in_class Space 0x63" "\<not> in_class Space 0x28" "\<not> in_class Space 0x7B"
  "\<not> in_class (NotCh 0x29) 0x29"
  by (simp_all add: is_space_def)

lemma in_class_NotCh: "in_class (NotCh d) = (\<lambda>c. c \<noteq> d)" "in_class Space = is_space"
  by (simp_all add: fun_eq_iff)

lemma callapi_match_sound:
  assumes "match_items callapi_pattern s = Some r"
  shows "\<exists>m. s = m @ r \<and> anchor_text m"
proof -
  from assms [unfolded callapi_pattern_form] inv_lit obtain t1 where
    1: \<open>s = py ''async'' @ t1\<close> and
    m1: \<open>match_items (Plus Space # Ch 0x63 #
           (map Ch (py ''allApi'') @ Star Space # Ch 0x28 # Star (NotCh 0x29) # Ch 0x29 #
              Star Space # Ch 0x7B # [])) t1 = Some r\<close> by blast
  from inv_plus [OF not_space(1) m1] obtain w1 t2 where
    2: "t1 = w1 @ 0x63 # t2" "w1 \<noteq> []" "list_all (in_class Space) w1" and
    m2: \<open>match_items (map Ch (py ''allApi'') @ Star Space # Ch 0x28 # Star (NotCh 0x29) #
            Ch 0x29 # Star Space # Ch 0x7B # []) t2 = Some r\<close> by blast
  from inv_lit [OF m2] obtain t3 where
    3: \<open>t2 = py ''allApi'' @ t3\<close> and
    m3: "match_items (Star Space # Ch 0x28 # Star (NotCh 0x29) # Ch 0x29 #
            Star Space # Ch 0x7B # []) t3 = Some r" by blast
  from inv_star [OF not_space(2) m3] obtain w2 t4 where
    4: "t3 = w2 @ 0x28 # t4" "list_all (in_class Space) w2" and
    m4: "match_items (Star (NotCh 0x29) # Ch 0x29 # Star Space # Ch 0x7B # []) t4 = Some r"
    by blast
  from inv_star [OF not_space(4) m4] obtain args t5 where
    5: "t4 = args @ 0x29 # t5" "list_all (in_class (NotCh 0x29)) args" and
    m5: "match_items (Star Space # Ch 0x7B # []) t5 = Some r" by blast
  from inv_star [OF not_space(3) m5] obtain w3 t6 where
    6: "t5 = w3 @ 0x7B # t6" "list_all (in_class Space) w3" and
    m6: "match_items [] t6 = Some r" by blast
  have r: "t6 = r" using m6 by simp
  let ?m = \<open>py ''async'' @ w1 @ py ''callApi'' @ w2 @ py ''('' @ args @ py '')'' @ w3 @ py ''{''\<close>
  have "s = ?m @ r" using 1 2(1) 3 4(1) 5(1) 6(1) r by (simp add: py_def)
  moreover have "anchor_text ?m"
    unfolding anchor_text_def using 2(2,3) 4(2) 5(2) 6(2) by (auto simp: in_class_NotCh)
  ultimately show ?thesis by blast
qed

lemma callapi_match_complete:
  assumes "anchor_text m"
  shows "match_items callapi_pattern (m @ r) = Some r"
proof -
  from assms obtain w1 w2 args w3 where
    m: \<open>m = py ''async'' @ w1 @ py ''callApi'' @ w2 @ py ''('' @ args @ py '')'' @ w3 @ py ''{''\<close>
    and w: "w1 \<noteq> []" "list_all (in_class Space) w1" "list_all (in_class Space) w2"
      "list_all (in_class (NotCh 0x29)) args" "list_all (in_class Space) w3"
    by (auto simp: anchor_text_def in_class_NotCh)
  have s: \<open>m @ r = py ''async'' @ (w1 @ 0x63 # (py ''allApi'' @ (w2 @ 0x28 # (args @ 0x29 #
              (w3 @ 0x7B # r)))))\<close>
    by (simp add: m py_def)
  show ?thesis
    unfolding s callapi_pattern_form
    by (simp only: run_lit run_plus [OF not_space(1) w(2) w(1)] run_star [OF not_space(2) w(3)]
          run_star [OF not_space(4) w(4)] run_star [OF not_space(3) w(5)] match_items.simps)
qed

lemma find_callapi_function_anchor:
  assumes "find_callapi_function c = Some (a, b)"
  shows "\<exists>m. c = take a c @ m @ drop b c \<and> anchor_text m \<and> length m = b - a"
proof -
  note s = find_callapi_function_sound [OF assms]
  from callapi_match_sound [OF s(3)] obtain m where
    m: "drop a c = m @ drop b c" and an: "anchor_text m" by blast
  have "length (drop a c) = length m + length (drop b c)" using m by (metis length_append)
  then have "length m = b - a" using s(1,2) by simp
  moreover have "c = take a c @ m @ drop b c" using m by (metis append_take_drop_id)
  ultimately show ?thesis using an by blast
qed


lemma find_callapi_function_None_iff:
  "find_callapi_function c = None \<longleftrightarrow> (\<forall>pre m post. c = pre @ m @ post \<longrightarrow> \<not> anchor_text m)"
proof
  assume n: "find_callapi_function c = None"
  show "\<forall>pre m post. c = pre @ m @ post \<longrightarrow> \<not> anchor_text m"
  proof (intro allI impI notI)
    fix pre m post
    assume c: "c = pre @ m @ post" and an: "anchor_text m"
    have "match_items callapi_pattern (drop (length pre) c) = None"
      using re_search_None [of callapi_pattern c 0 "length pre"] n c
      by (simp add: find_callapi_function_def)
    moreover have "drop (length pre) c = m @ post" using c by simp
    ultimately show False using callapi_match_complete [OF an, of post] by simp
  qed
next
  assume a: "\<forall>pre m post. c = pre @ m @ post \<longrightarrow> \<not> anchor_text m"
  show "find_callapi_function c = None"
  proof (cases "find_callapi_function c")
    case None
    then show ?thesis .
  next
    case (Some ab)
    obtain x y where "ab = (x, y)" by (cases ab)
    with Some find_callapi_function_anchor [of c x y] a show ?thesis by blast
  qed
qed

section \<open>Line endings\<close>

text \<open>
  What reading and writing do to the text.  Translating line endings neither adds
  nor removes a signature or a text of the anchor's shape, and reading back what
  was written gives the text that was written.
\<close>

lemma un_Cons_plain: "c \<noteq> cr \<Longrightarrow> universal_newlines (c # cs) = c # universal_newlines cs"
  by (cases cs) auto

lemma un_Cons_cr:
  "universal_newlines (cr # cs) =
     lf # universal_newlines (if take 1 cs = [lf] then drop 1 cs else cs)"
  by (cases cs) auto

lemma un_id: "cr \<notin> set t \<Longrightarrow> universal_newlines t = t"
  by (induction t) (auto simp: un_Cons_plain)


lemma un_Nil_iff: "universal_newlines t = [] \<longleftrightarrow> t = []"
  by (induction t rule: universal_newlines.induct) auto

lemma un_set: "set (universal_newlines t) \<subseteq> insert lf (set t)"
  by (induction t rule: universal_newlines.induct) auto

lemma un_set_pre: "set t \<subseteq> insert cr (insert lf (set (universal_newlines t)))"
  by (induction t rule: universal_newlines.induct) auto

lemma un_append:
  "ys = [] \<or> hd ys \<noteq> lf \<Longrightarrow> universal_newlines (xs @ ys) = universal_newlines xs @ universal_newlines ys"
proof (induction xs rule: universal_newlines.induct)
  case 1
  then show ?case by simp
next
  case (2 c)
  then show ?case by (cases ys) (auto simp: un_Cons_plain)
next
  case (3 c d cs)
  then show ?case by auto
qed

lemma un_plain_append:
  "cr \<notin> set xs \<Longrightarrow> universal_newlines (xs @ ys) = xs @ universal_newlines ys"
  by (induction xs) (auto simp: un_Cons_plain)

lemma un_split:
  "universal_newlines t = xs @ ys \<Longrightarrow>
     \<exists>t1 t2. t = t1 @ t2 \<and> universal_newlines t1 = xs \<and> universal_newlines t2 = ys"
proof (induction t arbitrary: xs rule: universal_newlines.induct)
  case 1
  then show ?case by simp
next
  case (2 c)
  show ?case
  proof (cases xs)
    case Nil
    then have "[c] = [] @ [c] \<and> universal_newlines [] = xs \<and> universal_newlines [c] = ys"
      using 2 by simp
    then show ?thesis by blast
  next
    case (Cons x xs')
    then have "[c] = [c] @ [] \<and> universal_newlines [c] = xs \<and> universal_newlines [] = ys"
      using 2 by (auto split: if_splits)
    then show ?thesis by blast
  qed
next
  case (3 c d cs)
  show ?case
  proof (cases xs)
    case Nil
    then have "c # d # cs = [] @ c # d # cs \<and> universal_newlines [] = xs \<and>
        universal_newlines (c # d # cs) = ys"
      using 3(4) by simp
    then show ?thesis by blast
  next
    case (Cons x xs')
    consider (crlf) "c = cr" "d = lf" | (cronly) "c = cr" "d \<noteq> lf" | (plain) "c \<noteq> cr" by blast
    then show ?thesis
    proof cases
      case crlf
      then have x: "x = lf" using 3(4) Cons by simp
      from crlf have "universal_newlines cs = xs' @ ys" using 3(4) Cons by simp
      from 3(1) [OF _ this] crlf obtain t1 t2 where
        "cs = t1 @ t2" "universal_newlines t1 = xs'" "universal_newlines t2 = ys" by blast
      then have "c # d # cs = (c # d # t1) @ t2 \<and> universal_newlines (c # d # t1) = xs \<and>
          universal_newlines t2 = ys"
        using crlf x Cons by simp
      then show ?thesis by blast
    next
      case cronly
      then have x: "x = lf" using 3(4) Cons by simp
      from cronly have "universal_newlines (d # cs) = xs' @ ys" using 3(4) Cons by simp
      from 3(2) [OF _ _ this] cronly obtain t1 t2 where
        t: "d # cs = t1 @ t2" "universal_newlines t1 = xs'" "universal_newlines t2 = ys" by blast
      have "universal_newlines (c # t1) = lf # universal_newlines t1"
      proof (cases t1)
        case Nil
        then show ?thesis using cronly by simp
      next
        case (Cons a as)
        then have "a = d" using t(1) by simp
        then show ?thesis using cronly Cons by simp
      qed
      then have "c # d # cs = (c # t1) @ t2 \<and> universal_newlines (c # t1) = xs \<and>
          universal_newlines t2 = ys"
        using x Cons t by simp
      then show ?thesis by blast
    next
      case plain
      then have x: "x = c" using 3(4) Cons by simp
      from plain have "universal_newlines (d # cs) = xs' @ ys" using 3(4) Cons by simp
      from 3(3) [OF _ _ this] plain obtain t1 t2 where
        t: "d # cs = t1 @ t2" "universal_newlines t1 = xs'" "universal_newlines t2 = ys" by blast
      then have "c # d # cs = (c # t1) @ t2 \<and> universal_newlines (c # t1) = xs \<and>
          universal_newlines t2 = ys"
        using plain x Cons by (simp add: un_Cons_plain)
      then show ?thesis by blast
    qed
  qed
qed

lemma un_eq_plain:
  assumes "universal_newlines t = xs" "lf \<notin> set xs"
  shows "t = xs"
proof -
  have "cr \<notin> set t"
  proof
    assume "cr \<in> set t"
    then have "lf \<in> set (universal_newlines t)"
      by (induction t rule: universal_newlines.induct) (auto split: if_splits)
    with assms show False by simp
  qed
  with assms(1) show ?thesis by (simp add: un_id)
qed

lemma un_append_plain_end:
  "xs \<noteq> [] \<Longrightarrow> last xs \<noteq> cr \<Longrightarrow>
     universal_newlines (xs @ ys) = universal_newlines xs @ universal_newlines ys"
proof (induction xs rule: universal_newlines.induct)
  case 1
  then show ?case by simp
next
  case (2 c)
  then show ?case by (simp add: un_Cons_plain)
next
  case (3 c d cs)
  then show ?case by (cases cs) (auto simp: un_Cons_plain)
qed

lemma un_split_lit:
  assumes "universal_newlines t = lit @ ys" "lf \<notin> set lit"
  shows "\<exists>t'. t = lit @ t' \<and> universal_newlines t' = ys"
proof -
  from un_split [OF assms(1)] obtain t1 t2 where
    "t = t1 @ t2" "universal_newlines t1 = lit" "universal_newlines t2 = ys" by blast
  moreover from this(2) assms(2) have "t1 = lit" by (rule un_eq_plain)
  ultimately show ?thesis by blast
qed

lemma space_cr_lf: "is_space cr" "is_space lf"
  by (simp_all add: is_space_def cr_def lf_def)

lemma un_spaces: "list_all is_space (universal_newlines t) \<longleftrightarrow> list_all is_space t"
  using un_set [of t] un_set_pre [of t] space_cr_lf
  by (auto simp: list_all_iff)

lemma un_no_paren:
  "list_all (\<lambda>c. c \<noteq> 0x29) (universal_newlines t) \<longleftrightarrow> list_all (\<lambda>c. c \<noteq> 0x29) t"
  using un_set [of t] un_set_pre [of t]
  by (auto simp: list_all_iff cr_def lf_def)

lemma sublist_un:
  assumes "cr \<notin> set sig" "lf \<notin> set sig" "sig \<noteq> []"
  shows "sublist sig (universal_newlines t) \<longleftrightarrow> sublist sig t"
proof
  assume "sublist sig t"
  then obtain pre post where t: "t = pre @ sig @ post" by (auto simp: sublist_def)
  have "hd (sig @ post) \<noteq> lf" using assms(2,3) by (cases sig) auto
  then have "universal_newlines t =
      universal_newlines pre @ sig @ universal_newlines post"
    using assms(1) by (simp add: t un_append un_plain_append)
  then show "sublist sig (universal_newlines t)" by (auto simp: sublist_def)
next
  assume "sublist sig (universal_newlines t)"
  then obtain pre post where "universal_newlines t = pre @ sig @ post"
    by (auto simp: sublist_def)
  from un_split [OF this] obtain t1 t2 where
    t: "t = t1 @ t2" and "universal_newlines t2 = sig @ post" by blast
  from un_split_lit [OF this(2) assms(2)] obtain t3 where "t2 = sig @ t3" by blast
  with t show "sublist sig t" by (auto simp: sublist_def)
qed

lemma lits_plain:
  \<open>cr \<notin> set (py ''async'')\<close> \<open>lf \<notin> set (py ''async'')\<close>
  \<open>cr \<notin> set (py ''callApi'')\<close> \<open>lf \<notin> set (py ''callApi'')\<close>
  \<open>cr \<notin> set (py ''('')\<close> \<open>lf \<notin> set (py ''('')\<close>
  \<open>cr \<notin> set (py '')'')\<close> \<open>lf \<notin> set (py '')'')\<close>
  \<open>cr \<notin> set (py ''{'')\<close> \<open>lf \<notin> set (py ''{'')\<close>
  by (simp_all add: py_def cr_def lf_def)

lemma lits_hd:
  \<open>hd (py ''callApi'' @ x) \<noteq> lf\<close> \<open>hd (py ''('' @ x) \<noteq> lf\<close>
  \<open>hd (py '')'' @ x) \<noteq> lf\<close> \<open>hd (py ''{'' @ x) \<noteq> lf\<close>
  by (simp_all add: py_def lf_def)

lemma anchor_text_un:
  assumes "anchor_text m"
  shows "anchor_text (universal_newlines m)"
    and "universal_newlines (m @ post) = universal_newlines m @ universal_newlines post"
proof -
  from assms obtain w1 w2 args w3 where
    m: \<open>m = py ''async'' @ w1 @ py ''callApi'' @ w2 @ py ''('' @ args @ py '')'' @ w3 @ py ''{''\<close>
    and w: "w1 \<noteq> []" "list_all is_space w1" "list_all is_space w2"
      "list_all (\<lambda>c. c \<noteq> 0x29) args" "list_all is_space w3"
    by (auto simp: anchor_text_def)
  have u: \<open>universal_newlines (m @ x) =
      py ''async'' @ universal_newlines w1 @ py ''callApi'' @ universal_newlines w2 @ py ''('' @
      universal_newlines args @ py '')'' @ universal_newlines w3 @ py ''{'' @ universal_newlines x\<close>
    for x
    unfolding m append_assoc
    by (simp only: un_plain_append [OF lits_plain(1)] un_plain_append [OF lits_plain(3)]
          un_plain_append [OF lits_plain(5)] un_plain_append [OF lits_plain(7)]
          un_plain_append [OF lits_plain(9)] un_append [OF disjI2, OF lits_hd(1)]
          un_append [OF disjI2, OF lits_hd(2)] un_append [OF disjI2, OF lits_hd(3)]
          un_append [OF disjI2, OF lits_hd(4)])
  from u [of "[]"] have um: \<open>universal_newlines m =
      py ''async'' @ universal_newlines w1 @ py ''callApi'' @ universal_newlines w2 @ py ''('' @
      universal_newlines args @ py '')'' @ universal_newlines w3 @ py ''{''\<close> by simp
  show "anchor_text (universal_newlines m)"
    unfolding anchor_text_def um using w
    by (intro exI [of _ "universal_newlines w1"] exI [of _ "universal_newlines w2"]
          exI [of _ "universal_newlines args"] exI [of _ "universal_newlines w3"])
       (simp add: un_spaces un_no_paren un_Nil_iff)
  show "universal_newlines (m @ post) = universal_newlines m @ universal_newlines post"
    using u [of post] um by simp
qed

lemma anchor_in_un:
  assumes "t = pre @ m @ post" "anchor_text m"
  shows "\<exists>pre' m' post'. universal_newlines t = pre' @ m' @ post' \<and> anchor_text m'"
proof -
  have "m \<noteq> []" "hd m \<noteq> lf"
    using assms(2) by (auto simp: anchor_text_def py_def lf_def)
  then have "hd (m @ post) \<noteq> lf" by simp
  then have "universal_newlines t =
      universal_newlines pre @ universal_newlines m @ universal_newlines post"
    using anchor_text_un(2) [OF assms(2), of post] by (simp add: assms(1) un_append)
  with anchor_text_un(1) [OF assms(2)] show ?thesis by blast
qed

lemma anchor_from_un:
  assumes "universal_newlines t = pre' @ m' @ post'" "anchor_text m'"
  shows "\<exists>pre m post. t = pre @ m @ post \<and> anchor_text m"
proof -
  from assms(2) obtain w1 w2 args w3 where
    m: \<open>m' = py ''async'' @ w1 @ py ''callApi'' @ w2 @ py ''('' @ args @ py '')'' @ w3 @ py ''{''\<close>
    and w: "w1 \<noteq> []" "list_all is_space w1" "list_all is_space w2"
      "list_all (\<lambda>c. c \<noteq> 0x29) args" "list_all is_space w3"
    by (auto simp: anchor_text_def)
  from un_split [OF assms(1)] obtain pre t0 where
    0: "t = pre @ t0" and u0: "universal_newlines t0 = m' @ post'" by blast
  from u0 have \<open>universal_newlines t0 =
      py ''async'' @ (w1 @ py ''callApi'' @ w2 @ py ''('' @ args @ py '')'' @ w3 @ py ''{'' @ post')\<close>
    by (simp add: m)
  from un_split_lit [OF this lits_plain(2)] obtain t1 where
    1: \<open>t0 = py ''async'' @ t1\<close> and
    u1: \<open>universal_newlines t1 =
      w1 @ (py ''callApi'' @ w2 @ py ''('' @ args @ py '')'' @ w3 @ py ''{'' @ post')\<close> by auto
  from un_split [OF u1] obtain v1 t2 where
    2: "t1 = v1 @ t2" "universal_newlines v1 = w1" and
    u2: \<open>universal_newlines t2 =
      py ''callApi'' @ (w2 @ py ''('' @ args @ py '')'' @ w3 @ py ''{'' @ post')\<close> by auto
  from un_split_lit [OF u2 lits_plain(4)] obtain t3 where
    3: \<open>t2 = py ''callApi'' @ t3\<close> and
    u3: \<open>universal_newlines t3 = w2 @ (py ''('' @ args @ py '')'' @ w3 @ py ''{'' @ post')\<close>
    by auto
  from un_split [OF u3] obtain v2 t4 where
    4: "t3 = v2 @ t4" "universal_newlines v2 = w2" and
    u4: \<open>universal_newlines t4 = py ''('' @ (args @ py '')'' @ w3 @ py ''{'' @ post')\<close> by auto
  from un_split_lit [OF u4 lits_plain(6)] obtain t5 where
    5: \<open>t4 = py ''('' @ t5\<close> and
    u5: \<open>universal_newlines t5 = args @ (py '')'' @ w3 @ py ''{'' @ post')\<close> by auto
  from un_split [OF u5] obtain va t6 where
    6: "t5 = va @ t6" "universal_newlines va = args" and
    u6: \<open>universal_newlines t6 = py '')'' @ (w3 @ py ''{'' @ post')\<close> by auto
  from un_split_lit [OF u6 lits_plain(8)] obtain t7 where
    7: \<open>t6 = py '')'' @ t7\<close> and
    u7: \<open>universal_newlines t7 = w3 @ (py ''{'' @ post')\<close> by auto
  from un_split [OF u7] obtain v3 t8 where
    8: "t7 = v3 @ t8" "universal_newlines v3 = w3" and
    u8: \<open>universal_newlines t8 = py ''{'' @ post'\<close> by auto
  from un_split_lit [OF u8 lits_plain(10)] obtain post where
    9: \<open>t8 = py ''{'' @ post\<close> by auto
  let ?m = \<open>py ''async'' @ v1 @ py ''callApi'' @ v2 @ py ''('' @ va @ py '')'' @ v3 @ py ''{''\<close>
  have "t = pre @ ?m @ post"
    using 0 1 2(1) 3 4(1) 5 6(1) 7 8(1) 9 by simp
  moreover have "anchor_text ?m"
  proof -
    have "v1 \<noteq> []" using w(1) 2(2) un_Nil_iff [of v1] by auto
    moreover have "list_all is_space v1" using w(2) 2(2) un_spaces [of v1] by simp
    moreover have "list_all is_space v2" using w(3) 4(2) un_spaces [of v2] by simp
    moreover have "list_all (\<lambda>c. c \<noteq> 0x29) va" using w(4) 6(2) un_no_paren [of va] by simp
    moreover have "list_all is_space v3" using w(5) 8(2) un_spaces [of v3] by simp
    ultimately show ?thesis unfolding anchor_text_def by blast
  qed
  ultimately show ?thesis by blast
qed

lemma find_un_None:
  "find_callapi_function (universal_newlines t) = None \<longleftrightarrow> find_callapi_function t = None"
proof -
  have "(\<exists>pre m post. universal_newlines t = pre @ m @ post \<and> anchor_text m) \<longleftrightarrow>
        (\<exists>pre m post. t = pre @ m @ post \<and> anchor_text m)"
  proof
    assume "\<exists>pre m post. universal_newlines t = pre @ m @ post \<and> anchor_text m"
    then obtain pre m post where "universal_newlines t = pre @ m @ post" "anchor_text m" by blast
    then show "\<exists>pre m post. t = pre @ m @ post \<and> anchor_text m" by (rule anchor_from_un)
  next
    assume "\<exists>pre m post. t = pre @ m @ post \<and> anchor_text m"
    then obtain pre m post where "t = pre @ m @ post" "anchor_text m" by blast
    then show "\<exists>pre m post. universal_newlines t = pre @ m @ post \<and> anchor_text m"
      by (rule anchor_in_un)
  qed
  then show ?thesis unfolding find_callapi_function_None_iff by blast
qed

lemma sigs_plain:
  "sig \<in> set patch_signatures \<Longrightarrow> cr \<notin> set sig \<and> lf \<notin> set sig \<and> sig \<noteq> []"
  by (auto simp: patch_signatures_def py_def cr_def lf_def)

lemma is_already_patched_un:
  "is_already_patched (universal_newlines t) = is_already_patched t"
proof -
  have "sublist sig (universal_newlines t) = sublist sig t" if "sig \<in> set patch_signatures" for sig
    using sigs_plain [OF that] by (simp add: sublist_un)
  then show ?thesis unfolding is_already_patched_def list_ex_iff by blast
qed

lemma write_newlines_append:
  "write_newlines e (xs @ ys) = write_newlines e xs @ write_newlines e ys"
  by (simp add: write_newlines_def)

lemma write_newlines_plain: "lf \<notin> set t \<Longrightarrow> write_newlines e t = t"
  by (induction t) (auto simp: write_newlines_def)


lemma sublist_write_newlines:
  assumes "sublist sig t" "lf \<notin> set sig"
  shows "sublist sig (write_newlines e t)"
proof -
  from assms(1) obtain pre post where "t = pre @ sig @ post" by (auto simp: sublist_def)
  then have "write_newlines e t = write_newlines e pre @ sig @ write_newlines e post"
    using assms(2) by (simp add: write_newlines_append write_newlines_plain)
  then show ?thesis by (auto simp: sublist_def)
qed


section \<open>The backup path is never the target path\<close>

lemma split_on_nonempty: "split_on d xs \<noteq> []"
  by (induction xs) (auto split: list.splits)

lemma split_on_no_sep: "x \<in> set (split_on d xs) \<Longrightarrow> d \<notin> set x"
  by (induction xs arbitrary: x) (auto split: list.splits if_splits)

lemma split_on_single: "d \<notin> set ys \<Longrightarrow> split_on d ys = [ys]"
  by (induction ys) auto

lemma last_filter_keep: "xs \<noteq> [] \<Longrightarrow> P (last xs) \<Longrightarrow> last (filter P xs) = last xs"
  by (induction xs rule: rev_induct) auto

lemma split_on_append:
  "d \<notin> set ys \<Longrightarrow>
     split_on d (xs @ ys) = butlast (split_on d xs) @ [last (split_on d xs) @ ys]"
proof (induction xs)
  case Nil
  then show ?case by (simp add: split_on_single)
next
  case (Cons x xs)
  obtain h t where ht: "split_on d xs = h # t"
    using split_on_nonempty [of d xs] by (cases "split_on d xs") auto
  show ?case using Cons ht by (cases t) auto
qed

lemma last_split_on_append:
  "d \<notin> set ys \<Longrightarrow> last (split_on d (xs @ ys)) = last (split_on d xs) @ ys"
  by (simp add: split_on_append)

lemma join_parts_snoc: "\<exists>y. join_parts (xs @ [x]) = y @ x"
  by (induction xs rule: join_parts.induct) auto

lemma stem_suffix_length: "length (path_stem n) + length (path_suffix n) = length n"
  by (auto simp: path_stem_def path_suffix_def split: option.splits)

lemma stem_suffix_set: "set (path_stem n) \<union> set (path_suffix n) \<subseteq> set n"
  by (auto simp: path_stem_def path_suffix_def split: option.splits if_splits
           dest: in_set_takeD in_set_dropD)

lemma backup_path_neq:
  assumes "backup_path_of p = Inr bp"
  shows "bp \<noteq> p"
proof
  assume eq: "bp = p"
  define name where "name = last (path_parts p)"
  define new where "new = path_stem name @ py ''_ori'' @ path_suffix name"
  from assms have ne: "path_parts p \<noteq> []"
    and bp: "bp = path_str (path_root p) (butlast (path_parts p) @ [new])"
    by (auto simp: backup_path_of_def with_name_def Let_def name_def new_def split: if_splits)
  have "name \<in> set (path_parts p)" using ne by (simp add: name_def)
  then have "name \<in> set (split_on slash p)" by (simp add: path_parts_def)
  then have "slash \<notin> set name" by (rule split_on_no_sep)
  then have nosl: "slash \<notin> set new"
    using stem_suffix_set [of name] by (auto simp: new_def py_def slash_def)
  have len: "length new = length name + 4"
    using stem_suffix_length [of name] by (simp add: new_def py_def)
  obtain y where "join_parts (butlast (path_parts p) @ [new]) = y @ new"
    using join_parts_snoc by blast
  then have "bp = (path_root p @ y) @ new" by (simp add: bp path_str_def)
  with eq have "last (split_on slash p) = last (split_on slash (path_root p @ y)) @ new"
    using last_split_on_append [OF nosl] by metis
  moreover define l where "l = last (split_on slash p)"
  ultimately have l: "length new \<le> length l" by simp
  then have "l \<noteq> []" "l \<noteq> [dot]" using len by auto
  then have "last (path_parts p) = l"
    unfolding path_parts_def l_def by (simp add: last_filter_keep split_on_nonempty)
  with l len show False by (simp add: name_def)
qed

section \<open>The signatures occur in every snippet\<close>

lemma sig_in_patches_1: \<open>sublist (py ''startsWith("report-")'') (patches mode)\<close>
  by (cases mode) (simp_all add: py_def sublist_code(3))

lemma sig_in_patches_2: \<open>sublist (py ''startsWith("record-")'') (patches mode)\<close>
  by (cases mode) (simp_all add: py_def sublist_code(3))

lemma sig_in_randomizer_3: \<open>sublist (py ''randSessionId'') generate_session_randomizer\<close>
  by (simp add: py_def sublist_code(3) generate_session_randomizer_def)

lemma sig_in_randomizer_4: \<open>sublist (py ''this._userAgent = ""'') generate_session_randomizer\<close>
  by (simp add: py_def sublist_code(3) generate_session_randomizer_def)

lemma sublist_in_append: "sublist s b \<Longrightarrow> sublist s (a @ b @ c)"
  by (auto simp: sublist_def) (metis append.assoc)

lemma sig_in_patch_code:
  assumes "sig \<in> set patch_signatures"
  shows "sublist sig (patch_code mode)"
proof -
  have l: "sublist s (patches mode) \<Longrightarrow> sublist s (patch_code mode)" for s
    using sublist_in_append [of s "patches mode" "[]" generate_session_randomizer]
    by (simp add: patch_code_def)
  have r: "sublist s generate_session_randomizer \<Longrightarrow> sublist s (patch_code mode)" for s
    using sublist_in_append [of s generate_session_randomizer "patches mode" "[]"]
    by (simp add: patch_code_def)
  from assms show ?thesis
    unfolding patch_signatures_def
    using l [OF sig_in_patches_1] l [OF sig_in_patches_2]
      r [OF sig_in_randomizer_3] r [OF sig_in_randomizer_4]
    by auto
qed

lemma sig_in_patched_content:
  "sig \<in> set patch_signatures \<Longrightarrow> sublist sig (patched_content c m mode)"
  unfolding patched_content_def by (rule sublist_in_append) (rule sig_in_patch_code)

lemma patched_content_is_patched: "is_already_patched (patched_content c m mode)"
proof -
  have "py ''randSessionId'' \<in> set patch_signatures" by (simp add: patch_signatures_def)
  then show ?thesis
    unfolding is_already_patched_def list_ex_iff using sig_in_patched_content by blast
qed

section \<open>The steps of the operations\<close>

lemma files_print [simp]:
  "files (print_info m w) = files w" "files (print_success m w) = files w"
  "files (print_error m w) = files w" "files (print_warning m w) = files w"
  by (simp_all add: print_info_def print_success_def print_error_def print_warning_def)

lemma console_print [simp]:
  "console (print_info m w) = console w @ [(INFO, m)]"
  "console (print_success m w) = console w @ [(SUCCESS, m)]"
  "console (print_error m w) = console w @ [(ERROR, m)]"
  "console (print_warning m w) = console w @ [(WARNING, m)]"
  by (simp_all add: print_info_def print_success_def print_error_def print_warning_def)

lemma success_failed [simp]: "\<not> success (failed m)" "message (failed m) = m"
  by (simp_all add: failed_def mkPatchResult_def)

lemma mkPatchResult_sel [simp]:
  "success (mkPatchResult s m fp bp) = s" "message (mkPatchResult s m fp bp) = m"
  "file_path (mkPatchResult s m fp bp) = fp" "backup_path (mkPatchResult s m fp bp) = bp"
  by (simp_all add: mkPatchResult_def)


lemma text_chmod_w [simp]: "text_of (chmod_w f) = text_of f"
  by (simp add: chmod_w_def)

lemma ewp_absent: "files w p = None \<Longrightarrow> ensure_write_permissions e w p = (True, w)"
  by (simp add: ensure_write_permissions_def path_exists_def)

lemma ewp_present:
  assumes "files w p = Some f"
  shows "fst (ensure_write_permissions e w p) = can_write e p f"
    and "can_write e p f \<Longrightarrow> files (snd (ensure_write_permissions e w p)) = (files w)(p \<mapsto> chmod_w f)"
    and "\<not> can_write e p f \<Longrightarrow> files (snd (ensure_write_permissions e w p)) = files w"
  using assms
  by (auto simp: ensure_write_permissions_def path_exists_def path_stat_def write_flag_def
        S_IWRITE_def S_IWUSR_def can_write_def chmod_w_def path_chmod_def os_chmod_def
        set_perms_def Let_def fun_upd_idem_iff
      split: option.splits sum.splits)

lemma ewp_other: "q \<noteq> p \<Longrightarrow> files (snd (ensure_write_permissions e w p)) q = files w q"
proof (cases "files w p")
  case None
  then show ?thesis by (simp add: ewp_absent)
next
  case (Some f)
  assume "q \<noteq> p"
  then show ?thesis using ewp_present(2,3) [OF Some, of e] by (cases "can_write e p f") auto
qed

lemma create_backup_exists:
  assumes "backup_path_of p = Inr bp" "files w bp \<noteq> None"
  shows "create_backup e w p = ((True, bp), print_warning (msg_backup_exists @ bp) w)"
  using assms by (simp add: create_backup_def path_exists_def)

lemma create_backup_ok:
  assumes "backup_path_of p = Inr bp" "files w p = Some f"
    "files w bp \<noteq> None \<or> copy_error e p bp = None"
  shows "fst (create_backup e w p) = (True, bp)"
    and "files (snd (create_backup e w p)) = with_backup (files w) bp f"
  using assms backup_path_neq [OF assms(1)]
  by (auto simp: create_backup_def path_exists_def copy2_def with_backup_def
      split: option.splits sum.splits)

lemma create_backup_inv:
  assumes "fst (fst (create_backup e w p))"
  shows "\<exists>bp. backup_path_of p = Inr bp \<and> snd (fst (create_backup e w p)) = bp \<and>
           (files w bp \<noteq> None \<or> copy_error e p bp = None \<and> files w p \<noteq> None)"
  using assms
  by (auto simp: create_backup_def path_exists_def copy2_def
      split: option.splits sum.splits if_splits)

lemma create_backup_failed:
  assumes "\<not> fst (fst (create_backup e w p))"
  shows "files (snd (create_backup e w p)) = files w"
  using assms
  by (auto simp: create_backup_def path_exists_def copy2_def
      split: option.splits sum.splits if_splits)

lemma read_text_ok:
  "files w p = Some f \<Longrightarrow> read_error e p = None \<Longrightarrow> read_text e w p = Inr (universal_newlines (text_of f))"
  by (simp add: read_text_def)

lemma files_put_text: "files w p = Some f \<Longrightarrow> files (put_text w p t) = (files w)(p \<mapsto> f\<lparr>text_of := t\<rparr>)"
  by (simp add: put_text_def)

lemma after_failed_write_other:
  "q \<noteq> p \<Longrightarrow> files (after_failed_write w p left) q = files w q"
  by (simp add: after_failed_write_def put_text_def split: option.splits)

lemma rollback_other: "q \<noteq> p \<Longrightarrow> files (rollback e w p bp) q = files w q"
  using ewp_other [of q p e w]
  by (cases "ensure_write_permissions e w p")
     (auto simp: rollback_def copy2_def split: sum.splits option.splits if_splits)

lemma rollback_copied:
  assumes "files w bp = Some g" "bp \<noteq> p" "copy_error e bp p = None"
  shows "files (rollback e w p bp) = (files w)(p \<mapsto> g)"
    and "console (rollback e w p bp) \<noteq> []"
    and "last (console (rollback e w p bp)) = (WARNING, msg_restored_original)"
proof -
  obtain ok w1 where e1: "ensure_write_permissions e w p = (ok, w1)"
    by (cases "ensure_write_permissions e w p") auto
  have o: "files w1 q = files w q" if "q \<noteq> p" for q
    using ewp_other [OF that, of e w] e1 by simp
  then have g: "files w1 bp = Some g" using assms by simp
  have r: "rollback e w p bp = print_warning msg_restored_original (w1\<lparr>files := (files w1)(p \<mapsto> g)\<rparr>)"
    using assms g by (simp add: rollback_def e1 copy2_def)
  show "files (rollback e w p bp) = (files w)(p \<mapsto> g)"
    using o by (auto simp: r)
  show "console (rollback e w p bp) \<noteq> []"
    and "last (console (rollback e w p bp)) = (WARNING, msg_restored_original)"
    by (simp_all add: r)
qed

lemma rollback_not_copied:
  assumes "copy_error e bp p = Some err"
  shows "files (rollback e w p bp) = files (snd (ensure_write_permissions e w p))"
    and "console (rollback e w p bp) \<noteq> []"
    and "last (console (rollback e w p bp)) = (ERROR, msg_restore_original_failed)"
  using assms
  by (cases "ensure_write_permissions e w p"; simp add: rollback_def copy2_def)+

section \<open>Every path through \<open>apply_patch\<close>\<close>

lemma patchable_iff:
  "patchable e w p f m bp \<longleftrightarrow>
     files w p = Some f \<and> read_error e p = None \<and> \<not> is_already_patched (universal_newlines (text_of f)) \<and>
     find_callapi_function (universal_newlines (text_of f)) = Some m \<and> can_write e p f \<and>
     backup_path_of p = Inr bp \<and> backup_possible e w p"
  by (auto simp: patchable_def backup_possible_def)

lemma prepared_files:
  assumes "patchable e w p f m bp"
  shows "files (prepared e w p patch_mode) = with_backup ((files w)(p \<mapsto> chmod_w f)) bp (chmod_w f)"
proof -
  let ?w2 = "print_info (msg_patch_mode @ mode_value patch_mode @ py '' - '' @
                              get_patch_description patch_mode)
             (print_info (msg_start_patching @ p) w)"
  let ?w3 = "snd (ensure_write_permissions e ?w2 p)"
  from assms have f: "files ?w2 p = Some f" and cw: "can_write e p f"
    and bp: "backup_path_of p = Inr bp" and c: "files w bp \<noteq> None \<or> copy_error e p bp = None"
    by (simp_all add: patchable_def)
  have f3: "files ?w3 = (files w)(p \<mapsto> chmod_w f)"
    using ewp_present(2) [OF f cw] by simp
  have "bp \<noteq> p" using backup_path_neq [OF bp] .
  then have c3: "files ?w3 bp \<noteq> None \<or> copy_error e p bp = None" using c f3 by simp
  have "files ?w3 p = Some (chmod_w f)" using f3 by simp
  from create_backup_ok(2) [OF bp this c3] show ?thesis
    by (simp add: prepared_def f3)
qed

lemma prepared_backup:
  assumes "patchable e w p f m bp"
  shows "files (prepared e w p mode) bp = (case files w bp of None \<Rightarrow> Some (chmod_w f) | Some g \<Rightarrow> Some g)"
  using assms backup_path_neq [of p bp]
  by (auto simp: prepared_files [OF assms] with_backup_def patchable_def split: option.splits)

lemma prepared_other:
  assumes "patchable e w p f m bp" "q \<noteq> p" "q \<noteq> bp"
  shows "files (prepared e w p mode) q = files w q"
  using assms by (simp add: prepared_files [OF assms(1)] with_backup_def)

lemma apply_body_patchable:
  assumes "patchable e w p f m bp"
  shows "apply_body e w p patch_mode =
     (case write_text e (prepared e w p patch_mode) p (patched_content (universal_newlines (text_of f)) m patch_mode) of
        (Inr _, w5) \<Rightarrow>
          (Inr (mkPatchResult True msg_patch_applied p bp),
           print_info msg_privacy_enabled
             (print_info (msg_effect @ get_patch_description patch_mode)
                (print_success (msg_patch_applied_to @ p) w5)))
      | (Inl err, w5) \<Rightarrow> (Inr (failed (msg_write_failed @ err)), rollback e w5 p bp))"
proof -
  let ?w2 = "print_info (msg_patch_mode @ mode_value patch_mode @ py '' - '' @
                              get_patch_description patch_mode)
             (print_info (msg_start_patching @ p) w)"
  let ?w3 = "snd (ensure_write_permissions e ?w2 p)"
  from assms have f: "files ?w2 p = Some f" and cw: "can_write e p f"
    and bp: "backup_path_of p = Inr bp" and c: "files w bp \<noteq> None \<or> copy_error e p bp = None"
    and rd: "read_error e p = None" and np: "\<not> is_already_patched (universal_newlines (text_of f))"
    and fnd: "find_callapi_function (universal_newlines (text_of f)) = Some m"
    by (simp_all add: patchable_def)
  have ex: "path_exists w p" using assms by (simp add: patchable_def path_exists_def)
  have r: "read_text e ?w2 p = Inr (universal_newlines (text_of f))" using read_text_ok [OF f rd] .
  obtain w3 where e1: "ensure_write_permissions e ?w2 p = (True, w3)"
    using ewp_present(1) [OF f, of e] cw by (cases "ensure_write_permissions e ?w2 p") auto
  have f3: "files w3 = (files w)(p \<mapsto> chmod_w f)"
    using ewp_present(2) [OF f cw] e1 by simp
  have "bp \<noteq> p" using backup_path_neq [OF bp] .
  then have c3: "files w3 bp \<noteq> None \<or> copy_error e p bp = None" using c f3 by simp
  have "files w3 p = Some (chmod_w f)" using f3 by simp
  from create_backup_ok(1) [OF bp this c3]
  obtain w4 where e2: "create_backup e w3 p = ((True, bp), w4)"
    by (cases "create_backup e w3 p") auto
  have w4: "prepared e w p patch_mode = w4"
    by (simp add: prepared_def e1 e2)
  show ?thesis
    unfolding apply_body_def w4 using ex r np fnd e1 e2
    by (simp add: Let_def patched_content_def)
qed

lemma apply_patch_absent:
  "files w p = None \<Longrightarrow> apply_patch e w p mode = (failed (msg_file_not_exist @ p), w)"
  by (simp add: apply_patch_def apply_body_def path_exists_def)

lemma apply_patch_read_failed:
  assumes "files w p = Some f" "read_error e p = Some err"
  shows "fst (apply_patch e w p mode) = failed (msg_read_failed @ err)"
    and "files (snd (apply_patch e w p mode)) = files w"
  using assms by (simp_all add: apply_patch_def apply_body_def path_exists_def read_text_def Let_def)

lemma apply_patch_already:
  assumes "files w p = Some f" "read_error e p = None" "is_already_patched (universal_newlines (text_of f))"
  shows "fst (apply_patch e w p mode) = failed msg_already_patched"
    and "files (snd (apply_patch e w p mode)) = files w"
  using assms by (simp_all add: apply_patch_def apply_body_def path_exists_def read_text_def Let_def)

lemma apply_patch_no_anchor:
  assumes "files w p = Some f" "read_error e p = None" "\<not> is_already_patched (universal_newlines (text_of f))"
    "find_callapi_function (universal_newlines (text_of f)) = None"
  shows "fst (apply_patch e w p mode) = failed msg_callapi_not_found"
    and "files (snd (apply_patch e w p mode)) = files w"
  using assms by (simp_all add: apply_patch_def apply_body_def path_exists_def read_text_def Let_def)

lemma apply_patch_no_permission:
  assumes "files w p = Some f" "read_error e p = None" "\<not> is_already_patched (universal_newlines (text_of f))"
    "find_callapi_function (universal_newlines (text_of f)) = Some m" "\<not> can_write e p f"
  shows "fst (apply_patch e w p mode) = failed msg_no_write_permission"
    and "files (snd (apply_patch e w p mode)) = files w"
proof -
  let ?w2 = "print_info (msg_patch_mode @ mode_value mode @ py '' - '' @
                              get_patch_description mode)
             (print_info (msg_start_patching @ p) w)"
  have f: "files ?w2 p = Some f" using assms(1) by simp
  obtain w3 where e1: "ensure_write_permissions e ?w2 p = (False, w3)"
    using ewp_present(1) [OF f, of e] assms(5) by (cases "ensure_write_permissions e ?w2 p") auto
  have f3: "files w3 = files w" using ewp_present(3) [OF f assms(5)] e1 by simp
  have body: "apply_body e w p mode = (Inr (failed msg_no_write_permission), w3)"
    unfolding apply_body_def using assms e1
    by (simp add: Let_def path_exists_def read_text_def)
  show "fst (apply_patch e w p mode) = failed msg_no_write_permission"
    and "files (snd (apply_patch e w p mode)) = files w"
    by (simp_all add: apply_patch_def body f3)
qed

lemma apply_patch_no_backup:
  assumes "files w p = Some f" "read_error e p = None" "\<not> is_already_patched (universal_newlines (text_of f))"
    "find_callapi_function (universal_newlines (text_of f)) = Some m" "can_write e p f" "\<not> backup_possible e w p"
  shows "fst (apply_patch e w p mode) = failed msg_create_backup_failed"
    and "files (snd (apply_patch e w p mode)) = (files w)(p \<mapsto> chmod_w f)"
proof -
  let ?w2 = "print_info (msg_patch_mode @ mode_value mode @ py '' - '' @
                              get_patch_description mode)
             (print_info (msg_start_patching @ p) w)"
  have f: "files ?w2 p = Some f" using assms(1) by simp
  obtain w3 where e1: "ensure_write_permissions e ?w2 p = (True, w3)"
    using ewp_present(1) [OF f, of e] assms(5) by (cases "ensure_write_permissions e ?w2 p") auto
  have f3: "files w3 = (files w)(p \<mapsto> chmod_w f)"
    using ewp_present(2) [OF f assms(5)] e1 by simp
  have nb: "\<not> fst (fst (create_backup e w3 p))"
  proof
    assume "fst (fst (create_backup e w3 p))"
    from create_backup_inv [OF this] obtain bp where
      bp: "backup_path_of p = Inr bp" and c: "files w3 bp \<noteq> None \<or> copy_error e p bp = None"
      by auto
    have "bp \<noteq> p" using backup_path_neq [OF bp] .
    then have "files w bp \<noteq> None \<or> copy_error e p bp = None" using c f3 by simp
    with assms(6) bp show False by (simp add: backup_possible_def)
  qed
  then obtain x w4 where e2: "create_backup e w3 p = ((False, x), w4)"
    by (cases "create_backup e w3 p") auto
  have f4: "files w4 = files w3" using create_backup_failed [OF nb] e2 by simp
  have body: "apply_body e w p mode = (Inr (failed msg_create_backup_failed), w4)"
    unfolding apply_body_def using assms e1 e2
    by (simp add: Let_def path_exists_def read_text_def)
  show "fst (apply_patch e w p mode) = failed msg_create_backup_failed"
    and "files (snd (apply_patch e w p mode)) = (files w)(p \<mapsto> chmod_w f)"
    by (simp_all add: apply_patch_def body f3 f4)
qed

lemma apply_patch_written:
  assumes "patchable e w p f m bp" "write_error e p = None"
  shows "fst (apply_patch e w p mode) = mkPatchResult True msg_patch_applied p bp"
    and "files (snd (apply_patch e w p mode)) =
           (with_backup ((files w)(p \<mapsto> chmod_w f)) bp (chmod_w f))
             (p \<mapsto> (chmod_w f)\<lparr>text_of := write_newlines e (patched_content (universal_newlines (text_of f)) m mode)\<rparr>)"
proof -
  have bp: "bp \<noteq> p" using assms(1) backup_path_neq by (auto simp: patchable_def)
  have fp: "files (prepared e w p mode) p = Some (chmod_w f)"
    using bp by (simp add: prepared_files [OF assms(1)] with_backup_def)
  show "fst (apply_patch e w p mode) = mkPatchResult True msg_patch_applied p bp"
    by (simp add: apply_patch_def apply_body_patchable [OF assms(1)] write_text_def assms(2))
  show "files (snd (apply_patch e w p mode)) =
           (with_backup ((files w)(p \<mapsto> chmod_w f)) bp (chmod_w f))
             (p \<mapsto> (chmod_w f)\<lparr>text_of := write_newlines e (patched_content (universal_newlines (text_of f)) m mode)\<rparr>)"
    by (simp add: apply_patch_def apply_body_patchable [OF assms(1)] write_text_def assms(2)
          files_put_text [OF fp] prepared_files [OF assms(1)])
qed

lemma apply_patch_write_failed:
  assumes "patchable e w p f m bp" "write_error e p = Some (err, left)"
  shows "apply_patch e w p mode =
           (failed (msg_write_failed @ err),
            rollback e (after_failed_write (prepared e w p mode) p left) p bp)"
  using assms(2)
  by (cases left)
     (simp_all add: apply_patch_def apply_body_patchable [OF assms(1)] write_text_def
        after_failed_write_def)

lemma apply_patch_outcome:
  "(files w p = None \<and> apply_patch e w p mode = (failed (msg_file_not_exist @ p), w)) \<or>
   (\<exists>f err. files w p = Some f \<and> read_error e p = Some err \<and>
      fst (apply_patch e w p mode) = failed (msg_read_failed @ err) \<and>
      files (snd (apply_patch e w p mode)) = files w) \<or>
   (\<exists>f. files w p = Some f \<and> read_error e p = None \<and> is_already_patched (universal_newlines (text_of f)) \<and>
      fst (apply_patch e w p mode) = failed msg_already_patched \<and>
      files (snd (apply_patch e w p mode)) = files w) \<or>
   (\<exists>f. files w p = Some f \<and> read_error e p = None \<and> \<not> is_already_patched (universal_newlines (text_of f)) \<and>
      find_callapi_function (universal_newlines (text_of f)) = None \<and>
      fst (apply_patch e w p mode) = failed msg_callapi_not_found \<and>
      files (snd (apply_patch e w p mode)) = files w) \<or>
   (\<exists>f. files w p = Some f \<and> \<not> can_write e p f \<and>
      fst (apply_patch e w p mode) = failed msg_no_write_permission \<and>
      files (snd (apply_patch e w p mode)) = files w) \<or>
   (\<exists>f. files w p = Some f \<and> \<not> backup_possible e w p \<and>
      fst (apply_patch e w p mode) = failed msg_create_backup_failed \<and>
      files (snd (apply_patch e w p mode)) = (files w)(p \<mapsto> chmod_w f)) \<or>
   (\<exists>f m bp. patchable e w p f m bp \<and> write_error e p = None \<and>
      fst (apply_patch e w p mode) = mkPatchResult True msg_patch_applied p bp \<and>
      files (snd (apply_patch e w p mode)) =
        (with_backup ((files w)(p \<mapsto> chmod_w f)) bp (chmod_w f))
          (p \<mapsto> (chmod_w f)\<lparr>text_of := write_newlines e (patched_content (universal_newlines (text_of f)) m mode)\<rparr>)) \<or>
   (\<exists>f m bp err left. patchable e w p f m bp \<and> write_error e p = Some (err, left) \<and>
      apply_patch e w p mode =
        (failed (msg_write_failed @ err),
         rollback e (after_failed_write (prepared e w p mode) p left) p bp))"
proof (cases "files w p")
  case None
  then show ?thesis using apply_patch_absent by simp
next
  case f: (Some f)
  show ?thesis
  proof (cases "read_error e p")
    case (Some err)
    then show ?thesis using apply_patch_read_failed [OF f Some] f by simp
  next
    case rd: None
    show ?thesis
    proof (cases "is_already_patched (universal_newlines (text_of f))")
      case True
      then show ?thesis using apply_patch_already [OF f rd True] f rd by simp
    next
      case np: False
      show ?thesis
      proof (cases "find_callapi_function (universal_newlines (text_of f))")
        case None
        then show ?thesis using apply_patch_no_anchor [OF f rd np None] f rd np by simp
      next
        case m: (Some m)
        show ?thesis
        proof (cases "can_write e p f")
          case False
          then show ?thesis using apply_patch_no_permission [OF f rd np m False] f by simp
        next
          case cw: True
          show ?thesis
          proof (cases "backup_possible e w p")
            case False
            then show ?thesis using apply_patch_no_backup [OF f rd np m cw False] f by simp
          next
            case True
            then obtain bp where bp: "backup_path_of p = Inr bp"
              by (auto simp: backup_possible_def split: sum.splits)
            have pa: "patchable e w p f m bp"
              using f rd np m cw bp True by (simp add: patchable_iff)
            show ?thesis
            proof (cases "write_error e p")
              case None
              from apply_patch_written [OF pa None] pa None show ?thesis by blast
            next
              case (Some a)
              then obtain err left where "write_error e p = Some (err, left)" by (cases a) auto
              from apply_patch_write_failed [OF pa this] pa this show ?thesis by blast
            qed
          qed
        qed
      qed
    qed
  qed
qed

lemma apply_patch_success_inv:
  assumes "success (fst (apply_patch e w p mode))"
  shows "\<exists>f m bp. patchable e w p f m bp \<and> write_error e p = None"
  using apply_patch_outcome [of w p e mode] assms
  by (elim disjE exE conjE) auto

lemma apply_patch_frame:
  assumes "q \<noteq> p" "backup_path_of p = Inr q \<longrightarrow> files w q \<noteq> None"
  shows "files (snd (apply_patch e w p mode)) q = files w q"
proof -
  have pr: "files (prepared e w p mode) q = files w q" if "patchable e w p f m bp" for f m bp
  proof (cases "q = bp")
    case True
    then show ?thesis using that assms(2) prepared_backup [OF that, of mode]
      by (auto simp: patchable_def)
  next
    case False
    then show ?thesis using prepared_other [OF that assms(1)] by simp
  qed
  show ?thesis
    using apply_patch_outcome [of w p e mode]
  proof (elim disjE exE conjE, goal_cases)
    case (7 f m bp)
    then show ?case using assms pr [OF 7(1)] prepared_files [OF 7(1), of mode] by simp
  next
    case (8 f m bp err left)
    then show ?case
      using assms pr [OF 8(1)] by (simp add: rollback_other after_failed_write_other)
  qed (use assms in simp_all)
qed


section \<open>Every path through \<open>restore_from_backup\<close> and \<open>get_patch_status\<close>\<close>

lemma restore_no_path:
  "backup_path_of p = Inl err \<Longrightarrow>
     restore_from_backup e w p = (failed (msg_restore_failed @ err), w)"
  by (simp add: restore_from_backup_def restore_body_def)

lemma restore_no_backup:
  "backup_path_of p = Inr bp \<Longrightarrow> files w bp = None \<Longrightarrow>
     restore_from_backup e w p = (failed (msg_backup_missing @ bp), w)"
  by (simp add: restore_from_backup_def restore_body_def path_exists_def)

lemma restore_no_permission:
  assumes "backup_path_of p = Inr bp" "files w bp = Some g"
    "\<not> fst (ensure_write_permissions e w p)"
  shows "fst (restore_from_backup e w p) = failed msg_no_write_permission"
    and "files (snd (restore_from_backup e w p)) = files w"
proof -
  obtain w1 where e1: "ensure_write_permissions e w p = (False, w1)"
    using assms(3) by (cases "ensure_write_permissions e w p") auto
  have "files w p \<noteq> None" using e1 ewp_absent [of w p e] by auto
  then obtain f where f: "files w p = Some f" by auto
  have "\<not> can_write e p f" using ewp_present(1) [OF f, of e] e1 by simp
  then have f1: "files w1 = files w" using ewp_present(3) [OF f, of e] e1 by simp
  show "fst (restore_from_backup e w p) = failed msg_no_write_permission"
    and "files (snd (restore_from_backup e w p)) = files w"
    using assms(1,2) by (simp_all add: restore_from_backup_def restore_body_def path_exists_def e1 f1)
qed

lemma restore_copy_failed:
  assumes "backup_path_of p = Inr bp" "files w bp = Some g"
    "fst (ensure_write_permissions e w p)" "copy_error e bp p = Some err"
  shows "restore_from_backup e w p =
           (failed (msg_restore_failed @ err), snd (ensure_write_permissions e w p))"
  using assms
  by (cases "ensure_write_permissions e w p")
     (simp add: restore_from_backup_def restore_body_def path_exists_def copy2_def)

lemma restore_copied:
  assumes "backup_path_of p = Inr bp" "files w bp = Some g"
    "fst (ensure_write_permissions e w p)" "copy_error e bp p = None"
  shows "fst (restore_from_backup e w p) = mkPatchResult True msg_restore_ok p bp"
    and "files (snd (restore_from_backup e w p)) = (files w)(p \<mapsto> g)"
proof -
  obtain w1 where e1: "ensure_write_permissions e w p = (True, w1)"
    using assms(3) by (cases "ensure_write_permissions e w p") auto
  have bp: "bp \<noteq> p" using backup_path_neq [OF assms(1)] .
  have o: "files w1 q = files w q" if "q \<noteq> p" for q
    using ewp_other [OF that, of e w] e1 by simp
  then have g: "files w1 bp = Some g" using assms(2) bp by simp
  have body: "restore_body e w p =
     (Inr (mkPatchResult True msg_restore_ok p bp),
      print_success (msg_restored_from_backup @ p) (w1\<lparr>files := (files w1)(p \<mapsto> g)\<rparr>))"
    using assms bp g by (simp add: restore_body_def path_exists_def e1 copy2_def)
  show "fst (restore_from_backup e w p) = mkPatchResult True msg_restore_ok p bp"
    by (simp add: restore_from_backup_def body)
  show "files (snd (restore_from_backup e w p)) = (files w)(p \<mapsto> g)"
    using o by (auto simp: restore_from_backup_def body)
qed

lemma restore_success_inv:
  assumes "success (fst (restore_from_backup e w p))"
  shows "\<exists>bp g. backup_path_of p = Inr bp \<and> files w bp = Some g \<and>
           fst (restore_from_backup e w p) = mkPatchResult True msg_restore_ok p bp \<and>
           files (snd (restore_from_backup e w p)) = (files w)(p \<mapsto> g)"
proof (cases "backup_path_of p")
  case (Inl err)
  then show ?thesis using assms by (simp add: restore_no_path)
next
  case (Inr bp)
  show ?thesis
  proof (cases "files w bp")
    case None
    then show ?thesis using assms Inr by (simp add: restore_no_backup)
  next
    case (Some g)
    show ?thesis
    proof (cases "fst (ensure_write_permissions e w p)")
      case False
      then show ?thesis using assms restore_no_permission(1) [OF Inr Some False] by simp
    next
      case True
      show ?thesis
      proof (cases "copy_error e bp p")
        case None
        then show ?thesis using restore_copied [OF Inr Some True None] Inr Some by simp
      next
        case (Some err)
        then show ?thesis using assms restore_copy_failed [OF Inr \<open>files w bp = Some g\<close> True Some]
          by simp
      qed
    qed
  qed
qed

lemma restore_frame: "q \<noteq> p \<Longrightarrow> files (snd (restore_from_backup e w p)) q = files w q"
proof (cases "backup_path_of p")
  case (Inl err)
  then show ?thesis by (simp add: restore_no_path)
next
  case (Inr bp)
  assume q: "q \<noteq> p"
  show ?thesis
  proof (cases "files w bp")
    case None
    then show ?thesis using Inr by (simp add: restore_no_backup)
  next
    case (Some g)
    show ?thesis
    proof (cases "fst (ensure_write_permissions e w p)")
      case False
      then show ?thesis using restore_no_permission(2) [OF Inr Some False] by simp
    next
      case True
      show ?thesis
      proof (cases "copy_error e bp p")
        case None
        then show ?thesis using restore_copied(2) [OF Inr Some True None] q by simp
      next
        case (Some err)
        then show ?thesis
          using restore_copy_failed [OF Inr \<open>files w bp = Some g\<close> True Some] q
          by (simp add: ewp_other)
      qed
    qed
  qed
qed



lemma perform_keeps_backup:
  assumes "backup_path_of p = Inr bp" "files w bp = Some g"
  shows "files (perform e p w op) bp = Some g"
proof (cases op)
  case (ApplyPatch mode)
  have "bp \<noteq> p" using backup_path_neq [OF assms(1)] .
  then show ?thesis using apply_patch_frame [of bp p w e mode] assms(2) ApplyPatch by simp
next
  case RestoreFromBackup
  have "bp \<noteq> p" using backup_path_neq [OF assms(1)] .
  then show ?thesis using restore_frame [of bp p e w] assms(2) RestoreFromBackup by simp
next
  case GetPatchStatus
  then show ?thesis using assms(2) by simp
qed

lemma get_patch_status_absent:
  "files w p = None \<Longrightarrow> get_patch_status e w p = status_file_not_found e"
  by (simp add: get_patch_status_def status_body_def path_exists_def)

lemma get_patch_status_unreadable:
  "files w p = Some f \<Longrightarrow> read_error e p = Some err \<Longrightarrow> get_patch_status e w p = status_unknown e"
  by (simp add: get_patch_status_def status_body_def path_exists_def read_text_def)

lemma get_patch_status_read:
  "files w p = Some f \<Longrightarrow> read_error e p = None \<Longrightarrow>
     get_patch_status e w p =
       (if is_already_patched (universal_newlines (text_of f)) then status_patched e else status_not_patched e)"
  by (simp add: get_patch_status_def status_body_def path_exists_def read_text_def)

lemma fallback_statuses:
  assumes "language_support e = None"
  shows "status_file_not_found e = py ''file not found''"
    "status_patched e = py ''patched''"
    "status_not_patched e = py ''not patched''"
    "status_unknown e = py ''status unknown''"
  using assms
  by (simp_all add: status_file_not_found_def status_patched_def status_not_patched_def
        status_unknown_def status_text_def FALLBACK_TEXTS_def py_def)

section \<open>What is written, and what a restore gives back\<close>

lemma or_and_same: "(x OR k) AND k = (k::nat)"
  by (rule bit_eqI) (auto simp: bit_and_iff bit_or_iff)

lemma chmod_w_writable: "perms (chmod_w f) AND S_IWUSR \<noteq> 0"
proof (cases "perms f AND S_IWUSR = 0")
  case True
  have "(perms f OR S_IWUSR) AND S_IWUSR = S_IWUSR" by (rule or_and_same)
  then show ?thesis using True by (simp add: chmod_w_def) (simp add: S_IWUSR_def)
next
  case False
  then show ?thesis by (simp add: chmod_w_def)
qed






lemma sig_in_written:
  assumes "sig \<in> set patch_signatures"
  shows "sublist sig (write_newlines e (patched_content c m mode))"
  using sig_in_patched_content [OF assms] sigs_plain [OF assms]
  by (simp add: sublist_write_newlines)

lemma written_is_patched:
  "is_already_patched (universal_newlines (write_newlines e (patched_content c m mode)))"
proof -
  have "py ''randSessionId'' \<in> set patch_signatures" by (simp add: patch_signatures_def)
  then have "is_already_patched (write_newlines e (patched_content c m mode))"
    unfolding is_already_patched_def list_ex_iff using sig_in_written by blast
  then show ?thesis by (simp add: is_already_patched_un)
qed


lemma apply_patch_written_target:
  assumes "patchable e w p f m bp" "write_error e p = None"
  shows "files (snd (apply_patch e w p mode)) p =
           Some ((chmod_w f)\<lparr>text_of :=
              write_newlines e (patched_content (universal_newlines (text_of f)) m mode)\<rparr>)"
    and "files (snd (apply_patch e w p mode)) bp =
           (case files w bp of None \<Rightarrow> Some (chmod_w f) | Some g \<Rightarrow> Some g)"
proof -
  have "bp \<noteq> p" using assms(1) backup_path_neq by (auto simp: patchable_def)
  then show "files (snd (apply_patch e w p mode)) bp =
           (case files w bp of None \<Rightarrow> Some (chmod_w f) | Some g \<Rightarrow> Some g)"
    using apply_patch_written(2) [OF assms, of mode]
    by (auto simp: with_backup_def split: option.splits)
  show "files (snd (apply_patch e w p mode)) p =
           Some ((chmod_w f)\<lparr>text_of :=
              write_newlines e (patched_content (universal_newlines (text_of f)) m mode)\<rparr>)"
    using apply_patch_written(2) [OF assms, of mode] by simp
qed

lemma restore_after_written:
  assumes "patchable e w p f m bp" "write_error e p = None" "copy_error e bp p = None"
  shows "success (fst (restore_from_backup e (snd (apply_patch e w p mode)) p))"
    and "files (snd (restore_from_backup e (snd (apply_patch e w p mode)) p)) p =
           files (snd (apply_patch e w p mode)) bp"
proof -
  let ?w1 = "snd (apply_patch e w p mode)"
  note t = apply_patch_written_target [OF assms(1,2), of mode]
  obtain g where g: "files ?w1 bp = Some g" using t(2) by (cases "files w bp") auto
  have bp: "backup_path_of p = Inr bp" and cw: "can_write e p f"
    using assms(1) by (simp_all add: patchable_def)
  have "can_write e p ((chmod_w f)\<lparr>text_of :=
              write_newlines e (patched_content (universal_newlines (text_of f)) m mode)\<rparr>)"
    using cw chmod_w_writable [of f] by (simp add: can_write_def)
  then have ok: "fst (ensure_write_permissions e ?w1 p)"
    using ewp_present(1) [OF t(1)] by simp
  from restore_copied [OF bp g ok assms(3)]
  show "success (fst (restore_from_backup e ?w1 p))"
    and "files (snd (restore_from_backup e ?w1 p)) p = files ?w1 bp"
    using g by simp_all
qed

section \<open>The example worlds, evaluated\<close>

lemma examples_plain:
  "universal_newlines demo_text = demo_text" "universal_newlines plain_text = plain_text"
  "universal_newlines two_text = two_text"
  by (rule un_id, simp add: demo_text_def plain_text_def two_text_def py_def cr_def)+

lemma demo_find: "find_callapi_function demo_text = Some (0, 21)"
  by (simp add: find_callapi_function_def callapi_pattern_def demo_text_def py_def is_space_def)

lemma demo_unpatched: "\<not> is_already_patched demo_text"
  by (simp add: is_already_patched_def patch_signatures_def demo_text_def py_def sublist_code(3))

lemma demo_backup_path: "backup_path_of demo_path = Inr demo_backup"
  by (simp add: backup_path_of_def with_name_def path_parts_def path_root_def path_str_def
        path_stem_def path_suffix_def demo_path_def demo_backup_def py_def slash_def dot_def Let_def)

lemma demo_paths_neq: "demo_backup \<noteq> demo_path"
  by (simp add: demo_path_def demo_backup_def py_def)

lemma demo_patchable:
  "patchable no_faults demo_world demo_path demo_file (0, 21) demo_backup"
  "patchable write_denied demo_world demo_path demo_file (0, 21) demo_backup"
  "patchable no_faults stale_world demo_path demo_file (0, 21) demo_backup"
  "patchable write_denied stale_world demo_path demo_file (0, 21) demo_backup"
  using demo_find demo_unpatched demo_backup_path demo_paths_neq
  by (simp_all add: patchable_def no_faults_def write_denied_def demo_world_def stale_world_def
        can_write_def demo_file_def examples_plain)

lemma plain_find: "find_callapi_function plain_text = None"
  by (simp add: find_callapi_function_def callapi_pattern_def plain_text_def py_def is_space_def)

lemma plain_unpatched: "\<not> is_already_patched plain_text"
  by (simp add: is_already_patched_def patch_signatures_def plain_text_def py_def sublist_code(3))











section \<open>The claims\<close>

text \<open>
  C1, as amended.  For every existing, readable file that holds none of the four
  signatures and holds a match of the anchor pattern: if write permission can be
  ensured, the backup exists or can be created, and the final write does not fail,
  then \<open>apply_patch\<close> returns a successful result for every mode, and the file then
  holds all four signatures.
\<close>

theorem apply_patch_succeeds_on_anchor:
  assumes "files w p = Some f" and "read_error e p = None"
    and "\<not> is_already_patched (text_of f)"
    and "find_callapi_function (text_of f) \<noteq> None"
    and "can_write e p f" and "backup_possible e w p" and "write_error e p = None"
  shows "success (fst (apply_patch e w p mode)) \<and>
         (\<exists>f'. files (snd (apply_patch e w p mode)) p = Some f' \<and>
               (\<forall>sig \<in> set patch_signatures. sublist sig (text_of f')))"
proof -
  from assms(4) have "find_callapi_function (universal_newlines (text_of f)) \<noteq> None"
    by (simp add: find_un_None)
  then obtain m where m: "find_callapi_function (universal_newlines (text_of f)) = Some m"
    by auto
  from assms(6) obtain bp where bp: "backup_path_of p = Inr bp"
    by (auto simp: backup_possible_def split: sum.splits)
  have pa: "patchable e w p f m bp"
    using assms m bp by (simp add: patchable_iff is_already_patched_un)
  from apply_patch_written(1) [OF pa assms(7), of mode]
    apply_patch_written_target(1) [OF pa assms(7), of mode]
  show ?thesis by (simp add: sig_in_written)
qed

text \<open>
  C1, an instance: the example file is patched in stealth mode where no system call
  fails.
\<close>

theorem apply_patch_succeeds_on_anchor_witness:
  "success (fst (apply_patch no_faults demo_world demo_path STEALTH)) \<and>
   (\<exists>f'. files (snd (apply_patch no_faults demo_world demo_path STEALTH)) demo_path = Some f' \<and>
         (\<forall>sig \<in> set patch_signatures. sublist sig (text_of f')))"
proof -
  have "backup_possible no_faults demo_world demo_path"
    using demo_backup_path by (simp add: backup_possible_def no_faults_def)
  moreover have "can_write no_faults demo_path demo_file"
    by (simp add: can_write_def no_faults_def)
  moreover have "files demo_world demo_path = Some demo_file"
    by (simp add: demo_world_def)
  moreover have "text_of demo_file = demo_text" by (simp add: demo_file_def)
  moreover have "read_error no_faults demo_path = None" "write_error no_faults demo_path = None"
    by (simp_all add: no_faults_def)
  ultimately show ?thesis
    using apply_patch_succeeds_on_anchor [of demo_world demo_path demo_file no_faults STEALTH]
      demo_find demo_unpatched by simp
qed

text \<open>
  C1 as stated fails: the example file holds no signature and holds the anchor, its
  permission bits allow writing and its backup is created, but opening it for
  writing is denied; \<open>apply_patch\<close> returns a failed result, the write failure.
\<close>

theorem apply_patch_fails_when_write_is_denied:
  "files demo_world demo_path = Some demo_file \<and>
   \<not> is_already_patched (text_of demo_file) \<and>
   find_callapi_function (text_of demo_file) = Some (0, 21) \<and>
   \<not> success (fst (apply_patch write_denied demo_world demo_path BLOCK)) \<and>
   message (fst (apply_patch write_denied demo_world demo_path BLOCK)) =
     msg_write_failed @ permission_denied"
proof -
  have "write_error write_denied demo_path = Some (permission_denied, None)"
    by (simp add: write_denied_def)
  from apply_patch_write_failed [OF demo_patchable(2) this, of BLOCK]
  show ?thesis using demo_find demo_unpatched by (simp add: demo_world_def demo_file_def)
qed

text \<open>
  C2, as amended.  If, before \<open>apply_patch\<close>, the backup file did not exist or held
  the characters of the target already, then after a successful \<open>apply_patch\<close> a
  successful \<open>restore_from_backup\<close> leaves the target with the characters it had
  before \<open>apply_patch\<close>, line endings included.
\<close>

theorem restore_after_apply_gives_original:
  assumes "success (fst (apply_patch e w p mode))"
    and "success (fst (restore_from_backup e (snd (apply_patch e w p mode)) p))"
    and "files w p = Some f" and "backup_path_of p = Inr bp"
    and "files w bp = None \<or> (\<exists>g. files w bp = Some g \<and> text_of g = text_of f)"
  shows "\<exists>f2. files (snd (restore_from_backup e (snd (apply_patch e w p mode)) p)) p = Some f2 \<and>
              text_of f2 = text_of f"
proof -
  let ?w1 = "snd (apply_patch e w p mode)"
  from apply_patch_success_inv [OF assms(1)] obtain f' m bp'
    where pa': "patchable e w p f' m bp'" and we: "write_error e p = None" by blast
  then have pa: "patchable e w p f m bp" using assms(3,4) by (simp add: patchable_def)
  have b1: "map_option text_of (files ?w1 bp) = Some (text_of f)"
    using apply_patch_written_target(2) [OF pa we, of mode] assms(5) by auto
  from restore_success_inv [OF assms(2)] obtain bp2 g where
    "backup_path_of p = Inr bp2" "files ?w1 bp2 = Some g"
    "files (snd (restore_from_backup e ?w1 p)) = (files ?w1)(p \<mapsto> g)" by blast
  with assms(4) b1 show ?thesis by auto
qed

text \<open>
  C2, an instance: patching and restoring the example file where no backup exists.
\<close>

theorem restore_after_apply_gives_original_witness:
  "success (fst (apply_patch no_faults demo_world demo_path BLOCK)) \<and>
   success (fst (restore_from_backup no_faults
                   (snd (apply_patch no_faults demo_world demo_path BLOCK)) demo_path)) \<and>
   files demo_world demo_backup = None \<and>
   (\<exists>f2. files (snd (restore_from_backup no_faults
                       (snd (apply_patch no_faults demo_world demo_path BLOCK)) demo_path))
            demo_path = Some f2 \<and> text_of f2 = demo_text)"
proof -
  have we: "write_error no_faults demo_path = None" by (simp add: no_faults_def)
  have ce: "copy_error no_faults demo_backup demo_path = None" by (simp add: no_faults_def)
  have nb: "files demo_world demo_backup = None"
    using demo_paths_neq by (simp add: demo_world_def)
  have f: "files demo_world demo_path = Some demo_file" by (simp add: demo_world_def)
  have s1: "success (fst (apply_patch no_faults demo_world demo_path BLOCK))"
    using apply_patch_written(1) [OF demo_patchable(1) we] by simp
  have s2: "success (fst (restore_from_backup no_faults
                   (snd (apply_patch no_faults demo_world demo_path BLOCK)) demo_path))"
    using restore_after_written(1) [OF demo_patchable(1) we ce] .
  from restore_after_apply_gives_original [OF s1 s2 f demo_backup_path] nb s1 s2
  show ?thesis by (simp add: demo_file_def)
qed

text \<open>
  C2 as stated fails: where a backup of an older version exists, \<open>_create_backup\<close>
  keeps it, \<open>apply_patch\<close> succeeds, and \<open>restore_from_backup\<close> then succeeds and
  leaves the target with the text of the older version, not with the text it had
  before \<open>apply_patch\<close>.
\<close>

theorem restore_after_apply_gives_stale_backup:
  "success (fst (apply_patch no_faults stale_world demo_path BLOCK)) \<and>
   success (fst (restore_from_backup no_faults
                   (snd (apply_patch no_faults stale_world demo_path BLOCK)) demo_path)) \<and>
   map_option text_of (files stale_world demo_path) = Some demo_text \<and>
   map_option text_of
     (files (snd (restore_from_backup no_faults
                    (snd (apply_patch no_faults stale_world demo_path BLOCK)) demo_path))
        demo_path) = Some (py ''old'') \<and>
   py ''old'' \<noteq> demo_text"
proof -
  let ?w1 = "snd (apply_patch no_faults stale_world demo_path BLOCK)"
  have we: "write_error no_faults demo_path = None" by (simp add: no_faults_def)
  have ce: "copy_error no_faults demo_backup demo_path = None" by (simp add: no_faults_def)
  have ob: "files stale_world demo_backup = Some old_file"
    by (simp add: stale_world_def)
  have f: "files stale_world demo_path = Some demo_file"
    using demo_paths_neq by (simp add: stale_world_def)
  have s1: "success (fst (apply_patch no_faults stale_world demo_path BLOCK))"
    using apply_patch_written(1) [OF demo_patchable(3) we] by simp
  have b: "files ?w1 demo_backup = Some old_file"
    using apply_patch_written_target(2) [OF demo_patchable(3) we, of BLOCK] ob by simp
  have s2: "success (fst (restore_from_backup no_faults ?w1 demo_path))"
    and r: "files (snd (restore_from_backup no_faults ?w1 demo_path)) demo_path = Some old_file"
    using restore_after_written [OF demo_patchable(3) we ce, of BLOCK] b by simp_all
  have "py ''old'' \<noteq> demo_text" by (simp add: demo_text_def py_def)
  then show ?thesis using s1 s2 f by (simp add: r old_file_def demo_file_def)
qed

text \<open>
  C3.  After a successful \<open>apply_patch\<close>, a second \<open>apply_patch\<close> on the same path, in
  any mode, returns a failed result whose message is the already-patched message;
  it changes no file.
\<close>

theorem second_apply_is_rejected:
  assumes "success (fst (apply_patch e w p mode))"
  shows "\<not> success (fst (apply_patch e (snd (apply_patch e w p mode)) p mode')) \<and>
         message (fst (apply_patch e (snd (apply_patch e w p mode)) p mode')) = msg_already_patched \<and>
         files (snd (apply_patch e (snd (apply_patch e w p mode)) p mode')) =
           files (snd (apply_patch e w p mode))"
proof -
  let ?w1 = "snd (apply_patch e w p mode)"
  from apply_patch_success_inv [OF assms] obtain f m bp
    where pa: "patchable e w p f m bp" and we: "write_error e p = None" by blast
  note f1 = apply_patch_written_target(1) [OF pa we, of mode]
  have rd: "read_error e p = None" using pa by (simp add: patchable_def)
  from apply_patch_already [OF f1 rd, of mode'] show ?thesis
    by (simp add: written_is_patched)
qed

text \<open>
  C3, an instance: the example file patched in block mode, then in random mode.
\<close>

theorem second_apply_is_rejected_witness:
  "success (fst (apply_patch no_faults demo_world demo_path BLOCK)) \<and>
   \<not> success (fst (apply_patch no_faults
                    (snd (apply_patch no_faults demo_world demo_path BLOCK)) demo_path RANDOM)) \<and>
   message (fst (apply_patch no_faults
                    (snd (apply_patch no_faults demo_world demo_path BLOCK)) demo_path RANDOM)) =
     msg_already_patched"
proof -
  have we: "write_error no_faults demo_path = None" by (simp add: no_faults_def)
  have s1: "success (fst (apply_patch no_faults demo_world demo_path BLOCK))"
    using apply_patch_written(1) [OF demo_patchable(1) we] by simp
  from second_apply_is_rejected [OF s1, of RANDOM] s1 show ?thesis by simp
qed

text \<open>
  C4.  For an existing, readable file that holds no signature and no match of the
  anchor pattern, \<open>apply_patch\<close> returns a failed result, the anchor-not-found
  message, and the file system is as before: the file is unchanged and no backup
  is created.
\<close>

theorem no_anchor_leaves_files_alone:
  assumes "files w p = Some f" and "read_error e p = None"
    and "\<not> is_already_patched (text_of f)"
    and "find_callapi_function (text_of f) = None"
  shows "\<not> success (fst (apply_patch e w p mode)) \<and>
         message (fst (apply_patch e w p mode)) = msg_callapi_not_found \<and>
         files (snd (apply_patch e w p mode)) = files w"
proof -
  have np: "\<not> is_already_patched (universal_newlines (text_of f))"
    using assms(3) by (simp add: is_already_patched_un)
  have nf: "find_callapi_function (universal_newlines (text_of f)) = None"
    using assms(4) by (simp add: find_un_None)
  from apply_patch_no_anchor [OF assms(1,2) np nf, of mode] show ?thesis by simp
qed

text \<open>
  C4, an instance: a file whose function is not \<open>async\<close>; afterwards the file is as
  it was and there is no backup.
\<close>

theorem no_anchor_leaves_files_alone_witness:
  "\<not> success (fst (apply_patch no_faults plain_world demo_path DEBUG)) \<and>
   message (fst (apply_patch no_faults plain_world demo_path DEBUG)) = msg_callapi_not_found \<and>
   files (snd (apply_patch no_faults plain_world demo_path DEBUG)) demo_path = Some plain_file \<and>
   files (snd (apply_patch no_faults plain_world demo_path DEBUG)) demo_backup = None"
proof -
  have f: "files plain_world demo_path = Some plain_file" by (simp add: plain_world_def)
  have rd: "read_error no_faults demo_path = None" by (simp add: no_faults_def)
  have np: "\<not> is_already_patched (text_of plain_file)"
    using plain_unpatched by (simp add: plain_file_def)
  have nf: "find_callapi_function (text_of plain_file) = None"
    using plain_find by (simp add: plain_file_def)
  from no_anchor_leaves_files_alone [OF f rd np nf, of DEBUG] show ?thesis
    using demo_paths_neq by (simp add: plain_world_def)
qed

text \<open>
  C5.  Once the backup file of a target exists, no sequence of \<open>apply_patch\<close>,
  \<open>restore_from_backup\<close> and \<open>get_patch_status\<close> on that target changes it, whatever
  system calls fail; \<open>_create_backup\<close> returns early, with a warning and the backup
  path, when the backup exists.
\<close>

theorem backup_is_never_overwritten:
  assumes "backup_path_of p = Inr bp" and "files w bp = Some g"
  shows "files (foldl (perform e p) w ops) bp = Some g \<and>
         create_backup e w p = ((True, bp), print_warning (msg_backup_exists @ bp) w)"
proof
  show "files (foldl (perform e p) w ops) bp = Some g"
    using assms(2)
  proof (induction ops arbitrary: w)
    case Nil
    then show ?case by simp
  next
    case (Cons op ops)
    from perform_keeps_backup [OF assms(1) Cons.prems, of e op]
    show ?case using Cons.IH by simp
  qed
  show "create_backup e w p = ((True, bp), print_warning (msg_backup_exists @ bp) w)"
    using assms by (simp add: create_backup_exists)
qed

text \<open>
  C5, an instance: the older backup of the example world survives patching,
  restoring and patching again, also where the write is denied and rolled back.
\<close>

theorem backup_is_never_overwritten_witness:
  "files stale_world demo_backup = Some old_file \<and>
   files (foldl (perform no_faults demo_path) stale_world
            [ApplyPatch BLOCK, GetPatchStatus, RestoreFromBackup, ApplyPatch DEBUG])
      demo_backup = Some old_file \<and>
   files (foldl (perform write_denied demo_path) stale_world
            [ApplyPatch BLOCK, RestoreFromBackup]) demo_backup = Some old_file"
proof -
  have ob: "files stale_world demo_backup = Some old_file"
    by (simp add: stale_world_def)
  from backup_is_never_overwritten [OF demo_backup_path ob, of no_faults]
    backup_is_never_overwritten [OF demo_backup_path ob, of write_denied] ob
  show ?thesis by blast
qed

text \<open>
  C6, as amended.  If the final write of \<open>apply_patch\<close> fails, the result is failed
  and its message is the write-failure message followed by the text of the
  exception, and nothing else: the result carries no note about the recovery.  The
  note goes to the console.  The operation copies the backup over the target; when
  the copy succeeds, the last line on the console is the warning that the original
  was restored and the target equals the backup file: it has the content it had
  before the call when this call made the backup, and it is the older backup when
  one was there already.  When the copy raises, the last line is the error that
  restoring failed.
\<close>

theorem failed_write_is_rolled_back:
  assumes "patchable e w p f m bp" and "write_error e p = Some (err, left)"
  shows "fst (apply_patch e w p mode) = failed (msg_write_failed @ err) \<and>
         (copy_error e bp p = None \<longrightarrow>
            last (console (snd (apply_patch e w p mode))) = (WARNING, msg_restored_original) \<and>
            files (snd (apply_patch e w p mode)) p = files (snd (apply_patch e w p mode)) bp \<and>
            (files w bp = None \<longrightarrow>
               map_option text_of (files (snd (apply_patch e w p mode)) p) = Some (text_of f)) \<and>
            (\<forall>g. files w bp = Some g \<longrightarrow> files (snd (apply_patch e w p mode)) p = Some g)) \<and>
         (copy_error e bp p \<noteq> None \<longrightarrow>
            last (console (snd (apply_patch e w p mode))) = (ERROR, msg_restore_original_failed))"
proof -
  let ?w5 = "after_failed_write (prepared e w p mode) p left"
  have ap: "apply_patch e w p mode = (failed (msg_write_failed @ err), rollback e ?w5 p bp)"
    using apply_patch_write_failed [OF assms] .
  have neq: "bp \<noteq> p" using assms(1) backup_path_neq by (auto simp: patchable_def)
  have b5: "files ?w5 bp = (case files w bp of None \<Rightarrow> Some (chmod_w f) | Some g \<Rightarrow> Some g)"
    using prepared_backup [OF assms(1), of mode] neq by (simp add: after_failed_write_other)
  then obtain g where g: "files ?w5 bp = Some g"
    and g0: "files w bp = None \<longrightarrow> text_of g = text_of f"
    and g1: "\<forall>h. files w bp = Some h \<longrightarrow> g = h"
    by (cases "files w bp") auto
  show ?thesis
  proof (cases "copy_error e bp p")
    case None
    from rollback_copied [OF g neq None] show ?thesis
      using ap neq g g0 g1 None by simp
  next
    case (Some cerr)
    from rollback_not_copied(3) [OF Some, of ?w5] show ?thesis
      using ap Some by simp
  qed
qed

text \<open>
  C6, an instance: the write to the example file is denied; the target is restored
  from the backup made by the call, and the console says so.
\<close>

theorem failed_write_is_rolled_back_witness:
  "fst (apply_patch write_denied demo_world demo_path BLOCK) =
     failed (msg_write_failed @ permission_denied) \<and>
   last (console (snd (apply_patch write_denied demo_world demo_path BLOCK))) =
     (WARNING, msg_restored_original) \<and>
   files demo_world demo_backup = None \<and>
   map_option text_of (files (snd (apply_patch write_denied demo_world demo_path BLOCK)) demo_path) =
     Some demo_text"
proof -
  have we: "write_error write_denied demo_path = Some (permission_denied, None)"
    by (simp add: write_denied_def)
  have ce: "copy_error write_denied demo_backup demo_path = None"
    by (simp add: write_denied_def no_faults_def)
  have nb: "files demo_world demo_backup = None"
    using demo_paths_neq by (simp add: demo_world_def)
  note th = failed_write_is_rolled_back [OF demo_patchable(2) we, of BLOCK]
  from th have a: "fst (apply_patch write_denied demo_world demo_path BLOCK) =
     failed (msg_write_failed @ permission_denied)" by (rule conjunct1)
  from th ce nb have b2: "map_option text_of
       (files (snd (apply_patch write_denied demo_world demo_path BLOCK)) demo_path) =
       Some (text_of demo_file)"
    and b3: "last (console (snd (apply_patch write_denied demo_world demo_path BLOCK))) =
       (WARNING, msg_restored_original)"
    by blast+
  have "text_of demo_file = demo_text" by (simp add: demo_file_def)
  with a b2 b3 nb show ?thesis by simp
qed

text \<open>
  C6 as stated fails: the write to the example file is denied where a backup of an
  older version exists.  The returned message is the write failure alone, and
  neither recovery note occurs in it; the note is the last line on the console.
  What the rollback puts in the target is the older version, not the text the file
  had before the call.
\<close>

theorem failed_write_result_has_no_recovery_note:
  "fst (apply_patch write_denied stale_world demo_path BLOCK) =
     failed (msg_write_failed @ permission_denied) \<and>
   \<not> sublist msg_restored_original
       (message (fst (apply_patch write_denied stale_world demo_path BLOCK))) \<and>
   \<not> sublist msg_restore_original_failed
       (message (fst (apply_patch write_denied stale_world demo_path BLOCK))) \<and>
   last (console (snd (apply_patch write_denied stale_world demo_path BLOCK))) =
     (WARNING, msg_restored_original) \<and>
   map_option text_of (files stale_world demo_path) = Some demo_text \<and>
   map_option text_of (files (snd (apply_patch write_denied stale_world demo_path BLOCK)) demo_path) =
     Some (py ''old'') \<and>
   py ''old'' \<noteq> demo_text"
proof -
  let ?w5 = "after_failed_write (prepared write_denied stale_world demo_path BLOCK) demo_path None"
  have we: "write_error write_denied demo_path = Some (permission_denied, None)"
    by (simp add: write_denied_def)
  have ce: "copy_error write_denied demo_backup demo_path = None"
    by (simp add: write_denied_def no_faults_def)
  have ob: "files stale_world demo_backup = Some old_file" by (simp add: stale_world_def)
  have f: "files stale_world demo_path = Some demo_file"
    using demo_paths_neq by (simp add: stale_world_def)
  have ap: "apply_patch write_denied stale_world demo_path BLOCK =
      (failed (msg_write_failed @ permission_denied), rollback write_denied ?w5 demo_path demo_backup)"
    using apply_patch_write_failed [OF demo_patchable(4) we] .
  have b5: "files ?w5 demo_backup = Some old_file"
    using prepared_backup [OF demo_patchable(4), of BLOCK] ob demo_paths_neq
    by (simp add: after_failed_write_def)
  note rb = rollback_copied [OF b5 demo_paths_neq ce]
  have n1: "\<not> sublist msg_restored_original (msg_write_failed @ permission_denied)"
    by (simp add: msg_restored_original_def msg_write_failed_def permission_denied_def py_def
          sublist_code(3))
  have n2: "\<not> sublist msg_restore_original_failed (msg_write_failed @ permission_denied)"
    by (simp add: msg_restore_original_failed_def msg_write_failed_def permission_denied_def py_def
          sublist_code(3))
  have "py ''old'' \<noteq> demo_text" by (simp add: demo_text_def py_def)
  then show ?thesis
    using ap rb n1 n2 f by (simp add: old_file_def demo_file_def)
qed

text \<open>
  C7.  \<open>get_patch_status\<close> returns the file-not-found status when the path does not
  exist, the status-unknown status when reading raises, the patched status when
  the text holds at least one signature and the not-patched status when it holds
  none.  Without language support the four are the English fallback texts.
\<close>

theorem get_patch_status_is_one_of_four:
  "get_patch_status e w p =
     (case files w p of
        None \<Rightarrow> status_file_not_found e
      | Some f \<Rightarrow>
          (case read_error e p of
             Some err \<Rightarrow> status_unknown e
           | None \<Rightarrow>
               if (\<exists>sig \<in> set patch_signatures. sublist sig (text_of f)) then status_patched e
               else status_not_patched e)) \<and>
   (language_support e = None \<longrightarrow>
      status_file_not_found e = py ''file not found'' \<and> status_patched e = py ''patched'' \<and>
      status_not_patched e = py ''not patched'' \<and> status_unknown e = py ''status unknown'')"
proof
  show "get_patch_status e w p =
     (case files w p of
        None \<Rightarrow> status_file_not_found e
      | Some f \<Rightarrow>
          (case read_error e p of
             Some err \<Rightarrow> status_unknown e
           | None \<Rightarrow>
               if (\<exists>sig \<in> set patch_signatures. sublist sig (text_of f)) then status_patched e
               else status_not_patched e))"
  proof -
    have "is_already_patched (universal_newlines t) = (\<exists>sig \<in> set patch_signatures. sublist sig t)"
      for t
      unfolding is_already_patched_un by (simp add: is_already_patched_def list_ex_iff)
    then show ?thesis
      by (auto simp: get_patch_status_absent get_patch_status_unreadable get_patch_status_read
            split: option.splits)
  qed
  show "language_support e = None \<longrightarrow>
      status_file_not_found e = py ''file not found'' \<and> status_patched e = py ''patched'' \<and>
      status_not_patched e = py ''not patched'' \<and> status_unknown e = py ''status unknown''"
    using fallback_statuses by blast
qed

text \<open>
  C7, an instance of each of the four: a missing path, the example file before and
  after patching, and an undecodable file.
\<close>

theorem get_patch_status_is_one_of_four_witness:
  "get_patch_status no_faults demo_world demo_backup = py ''file not found'' \<and>
   get_patch_status no_faults demo_world demo_path = py ''not patched'' \<and>
   get_patch_status no_faults (snd (apply_patch no_faults demo_world demo_path BLOCK)) demo_path =
     py ''patched'' \<and>
   get_patch_status unreadable demo_world demo_path = py ''status unknown''"
proof -
  let ?w1 = "snd (apply_patch no_faults demo_world demo_path BLOCK)"
  have l: "language_support no_faults = None" "language_support unreadable = None"
    by (simp_all add: no_faults_def unreadable_def)
  have nb: "files demo_world demo_backup = None"
    using demo_paths_neq by (simp add: demo_world_def)
  have f: "files demo_world demo_path = Some demo_file" by (simp add: demo_world_def)
  have rd: "read_error no_faults demo_path = None"
    "read_error unreadable demo_path = Some (py ''invalid start byte'')"
    by (simp_all add: no_faults_def unreadable_def)
  have np: "\<not> (\<exists>sig \<in> set patch_signatures. sublist sig (text_of demo_file))"
    using demo_unpatched by (simp add: is_already_patched_def list_ex_iff demo_file_def)
  have we: "write_error no_faults demo_path = None" by (simp add: no_faults_def)
  note f1 = apply_patch_written_target(1) [OF demo_patchable(1) we, of BLOCK]
  have yp: "\<exists>sig \<in> set patch_signatures.
      sublist sig (write_newlines no_faults
        (patched_content (universal_newlines (text_of demo_file)) (0, 21) BLOCK))"
    using sig_in_written [of \<open>py ''randSessionId''\<close>] by (auto simp: patch_signatures_def)
  have 1: "get_patch_status no_faults demo_world demo_backup = py ''file not found''"
    using get_patch_status_is_one_of_four [of no_faults demo_world demo_backup] nb l by simp
  have 2: "get_patch_status no_faults demo_world demo_path = py ''not patched''"
    using get_patch_status_is_one_of_four [of no_faults demo_world demo_path] f rd np l by simp
  have 3: "get_patch_status no_faults ?w1 demo_path = py ''patched''"
    using get_patch_status_is_one_of_four [of no_faults ?w1 demo_path] f1 rd yp l by simp
  have 4: "get_patch_status unreadable demo_world demo_path = py ''status unknown''"
    using get_patch_status_is_one_of_four [of unreadable demo_world demo_path] f rd l by simp
  from 1 2 3 4 show ?thesis by blast
qed








end
